theory Spec2Isabelle
  imports Main "HOL-Library.Sublist" "HOL-Library.Char_ord" "HOL-Library.List_Lexorder"
    "HOL-Library.Word"
begin

section \<open>Qt containers and values\<close>

text \<open>
  \<open>QString::startsWith\<close>: \<open>s.startsWith(p)\<close> holds when \<open>p\<close> is a prefix of \<open>s\<close>
  (every string starts with the empty string).
\<close>

definition startsWith :: "string \<Rightarrow> string \<Rightarrow> bool" where
  "startsWith s p = prefix p s"

text \<open>
  \<open>QMap<K, V>\<close> is an ordered dictionary: one value per key, iterated in ascending key
  order. It is modelled as an association list; \<open>qinsert\<close> keeps the list sorted by key
  and replaces the value of a key that is already there, as \<open>QMap::insert\<close> does.
\<close>

type_synonym ('k, 'v) qmap = "('k \<times> 'v) list"

fun qinsert :: "'k::linorder \<Rightarrow> 'v \<Rightarrow> ('k, 'v) qmap \<Rightarrow> ('k, 'v) qmap" where
  "qinsert k v [] = [(k, v)]"
| "qinsert k v ((k', v') # m) =
     (if k = k' then (k, v) # m
      else if k < k' then (k, v) # (k', v') # m
      else (k', v') # qinsert k v m)"

text \<open>\<open>QMap::value(key)\<close>: the stored value, or a default-constructed one.\<close>

definition qvalue :: "'v \<Rightarrow> 'k \<Rightarrow> ('k, 'v) qmap \<Rightarrow> 'v" where
  "qvalue dflt k m = (case map_of m k of Some v \<Rightarrow> v | None \<Rightarrow> dflt)"

definition qcontains :: "'k \<Rightarrow> ('k, 'v) qmap \<Rightarrow> bool" where
  "qcontains k m = (map_of m k \<noteq> None)"

definition qremove :: "'k \<Rightarrow> ('k, 'v) qmap \<Rightarrow> ('k, 'v) qmap" where
  "qremove k m = filter (\<lambda>kv. fst kv \<noteq> k) m"

definition qkeys :: "('k, 'v) qmap \<Rightarrow> 'k list" where
  "qkeys m = map fst m"

definition qisEmpty :: "('k, 'v) qmap \<Rightarrow> bool" where
  "qisEmpty m = (m = [])"

text \<open>
  \<open>QVariant\<close>: a default-constructed \<open>QVariant()\<close> is invalid; the other constructors
  are the payloads UDisks2 sends.
\<close>

datatype variant =
    Invalid
  | VBool bool
  | VUInt64 "64 word"
  | VString string
  | VByteArray "8 word list"
  | VObjectPath string

definition isValid :: "variant \<Rightarrow> bool" where
  "isValid v = (v \<noteq> Invalid)"

type_synonym variant_map = "(string, variant) qmap"     \<comment> \<open>\<open>QVariantMap\<close>\<close>
type_synonym property_map = "(string, variant_map) qmap" \<comment> \<open>\<open>PropertyMap\<close>, \<open>VariantMapMap\<close>\<close>
type_synonym device_cache = "(string, property_map) qmap" \<comment> \<open>\<open>QMap<QString, PropertyMap>\<close>\<close>

section \<open>The UDisks2 manager (\<open>udisksmanager.cpp\<close>)\<close>

text \<open>
  What the manager uses and \<open>src/\<close> does not hold is a parameter: the constants of
  \<open>udisks2.h\<close>, the replies of the D-Bus service (\<open>Properties.Get\<close>,
  \<open>Properties.GetAll\<close>, \<open>GetManagedObjects\<close>; an error reply of \<open>Get\<close> has the
  value \<open>QVariant()\<close>, an invalid reply of the other two is \<open>None\<close>),
  \<open>Utils::sanitizeValue\<close> for one value and for a map, \<open>QVariant::toULongLong\<close>, and
  \<open>Device::mightBeOpticalDisc\<close>, taken as a predicate on the cache and the identifier.
\<close>

record env =
  UD2_DBUS_SERVICE :: string
  UD2_DBUS_PATH_JOBS :: string
  UD2_DBUS_PATH_BLOCK_DEVICES :: string
  UD2_DBUS_PATH_DRIVES :: string
  UD2_UDI_DISKS_PREFIX :: string
  UD2_DBUS_INTERFACE_BLOCK :: string
  UD2_DBUS_INTERFACE_FILESYSTEM :: string
  reply_Get :: "string \<Rightarrow> string \<Rightarrow> string \<Rightarrow> variant"
  reply_GetAll :: "string \<Rightarrow> string \<Rightarrow> variant_map option"
  reply_GetManagedObjects :: "(string \<times> property_map) list option"
  sanitizeValue :: "variant \<Rightarrow> variant"
  sanitizeMap :: "variant_map \<Rightarrow> variant_map"
  toULongLong :: "variant \<Rightarrow> 64 word"
  mightBeOpticalDisc :: "device_cache \<Rightarrow> string \<Rightarrow> bool"

datatype dbus_call =
    Get string string string      \<comment> \<open>object path, interface, property\<close>
  | GetAll string string          \<comment> \<open>object path, interface\<close>
  | GetManagedObjects

text \<open>\<open>Solid::GenericInterface::PropertyChange\<close>, the kinds of change that \<open>propertyChanged\<close> reports.\<close>

datatype PropertyChange = PropertyModified | PropertyAdded | PropertyRemoved

datatype event =
    DeviceAdded string
  | DeviceRemoved string
  | PropertyChanged string "(string, PropertyChange) qmap"

text \<open>
  The manager's state: the cache \<open>m_cache\<close>, the signals it has emitted (oldest first)
  and the blocking D-Bus calls it has made (oldest first).
\<close>

record manager =
  m_cache :: device_cache
  emitted :: "event list"
  dbus_calls :: "dbus_call list"

datatype FetchMode = CachedOnly | FetchIfNeeded

text \<open>\<open>m_cache[udi][iface][name] = value\<close>; \<open>operator[]\<close> creates what is missing.\<close>

definition cache_store :: "string \<Rightarrow> string \<Rightarrow> string \<Rightarrow> variant \<Rightarrow> device_cache \<Rightarrow> device_cache" where
  "cache_store udi iface name v c =
     (let props = qvalue [] udi c
      in qinsert udi (qinsert iface (qinsert name v (qvalue [] iface props)) props) c)"

text \<open>
  \<open>Manager::deviceProperty\<close>: the loop over the interfaces of \<open>udi\<close> in key order; it
  returns at the first interface that has the property.
\<close>

fun deviceProperty_loop ::
  "env \<Rightarrow> manager \<Rightarrow> string \<Rightarrow> string \<Rightarrow> FetchMode \<Rightarrow> property_map \<Rightarrow> variant \<times> manager" where
  "deviceProperty_loop e s udi name fetchMode [] = (Invalid, s)"
| "deviceProperty_loop e s udi name fetchMode ((iface, m) # rest) =
     (case map_of m name of
        Some v \<Rightarrow>
          if \<not> isValid v \<and> fetchMode = FetchIfNeeded then
            let val = sanitizeValue e (reply_Get e udi iface name)
            in (val, s\<lparr>m_cache := cache_store udi iface name val (m_cache s),
                       dbus_calls := dbus_calls s @ [Get udi iface name]\<rparr>)
          else (v, s)
      | None \<Rightarrow> deviceProperty_loop e s udi name fetchMode rest)"

definition deviceProperty ::
  "env \<Rightarrow> manager \<Rightarrow> string \<Rightarrow> string \<Rightarrow> FetchMode \<Rightarrow> variant \<times> manager" where
  "deviceProperty e s udi name fetchMode =
     deviceProperty_loop e s udi name fetchMode (qvalue [] udi (m_cache s))"

text \<open>
  \<open>Manager::allDevices\<close>: the cache is cleared and filled again from
  \<open>GetManagedObjects\<close>; only block devices and drives are kept. No signal is emitted.
\<close>

fun allDevices_items :: "env \<Rightarrow> (string \<times> property_map) list \<Rightarrow> device_cache \<Rightarrow> device_cache" where
  "allDevices_items e [] c = c"
| "allDevices_items e ((udi, mapMap) # items) c =
     (if \<not> startsWith udi (UD2_DBUS_PATH_BLOCK_DEVICES e) \<and> \<not> startsWith udi (UD2_DBUS_PATH_DRIVES e)
      then allDevices_items e items c
      else allDevices_items e items
             (qinsert udi (map (\<lambda>(iface, m). (iface, sanitizeMap e m)) mapMap) c))"

definition Manager_allDevices :: "env \<Rightarrow> manager \<Rightarrow> string list \<times> manager" where
  "Manager_allDevices e s =
     (let s1 = s\<lparr>m_cache := [], dbus_calls := dbus_calls s @ [GetManagedObjects]\<rparr>;
          s2 = (case reply_GetManagedObjects e of
                  Some items \<Rightarrow> s1\<lparr>m_cache := allDevices_items e items (m_cache s1)\<rparr>
                | None \<Rightarrow> s1)
      in (qkeys (m_cache s2), s2))"

definition deviceCache :: "env \<Rightarrow> manager \<Rightarrow> device_cache \<times> manager" where
  "deviceCache e s =
     (if qisEmpty (m_cache s) then (let s1 = snd (Manager_allDevices e s) in (m_cache s1, s1))
      else (m_cache s, s))"

text \<open>
  The objects a backend's \<open>createDevice\<close> hands out: the manager's \<open>RootDevice\<close> and
  \<open>Device\<close>, each for an identifier, and any other object, which alone is no
  \<open>Ifaces::Device\<close>.
\<close>

datatype qobject = RootDevice string | Device string | PlainObject

definition Manager_createDevice :: "env \<Rightarrow> manager \<Rightarrow> string \<Rightarrow> qobject option \<times> manager" where
  "Manager_createDevice e s udi =
     (if udi = UD2_UDI_DISKS_PREFIX e then (Some (RootDevice udi), s)
      else (let (c, s1) = deviceCache e s
            in if qcontains udi c then (Some (Device udi), s1) else (None, s1)))"

text \<open>\<open>Manager::slotInterfacesAdded\<close>: its two loops, then the slot.\<close>

fun merge_interfaces :: "env \<Rightarrow> property_map \<Rightarrow> property_map \<Rightarrow> property_map" where
  "merge_interfaces e [] cached = cached"
| "merge_interfaces e ((iface, props) # rest) cached =
     (if \<not> startsWith iface (UD2_DBUS_SERVICE e) then merge_interfaces e rest cached
      else merge_interfaces e rest (qinsert iface (sanitizeMap e props) cached))"

fun refetch_interfaces ::
  "env \<Rightarrow> string \<Rightarrow> string list \<Rightarrow> property_map \<times> dbus_call list \<Rightarrow> property_map \<times> dbus_call list" where
  "refetch_interfaces e udi [] (cached, calls) = (cached, calls)"
| "refetch_interfaces e udi (interface # rest) (cached, calls) =
     refetch_interfaces e udi rest
       (case reply_GetAll e udi interface of
          Some reply \<Rightarrow> (qinsert interface (sanitizeMap e reply) cached, calls @ [GetAll udi interface])
        | None \<Rightarrow> (cached, calls @ [GetAll udi interface]))"

definition slotInterfacesAdded :: "env \<Rightarrow> manager \<Rightarrow> string \<Rightarrow> property_map \<Rightarrow> manager" where
  "slotInterfacesAdded e s udi interfaces_and_properties =
     (if startsWith udi (UD2_DBUS_PATH_JOBS e) then s
      else
        let isNewDevice = \<not> qcontains udi (m_cache s);
            cached = (if isNewDevice then [] else qvalue [] udi (m_cache s));
            oldInterfaces = remove1 (UD2_DBUS_INTERFACE_BLOCK e) (qkeys cached);
            cached1 = merge_interfaces e interfaces_and_properties cached;
            (cached2, calls) = refetch_interfaces e udi oldInterfaces (cached1, dbus_calls s)
        in s\<lparr>m_cache := qinsert udi cached2 (m_cache s),
              dbus_calls := calls,
              emitted := (if isNewDevice \<or> qcontains (UD2_DBUS_INTERFACE_FILESYSTEM e) interfaces_and_properties
                          then emitted s @ [DeviceAdded udi] else emitted s)\<rparr>)"

text \<open>\<open>Manager::slotInterfacesRemoved\<close>.\<close>

definition slotInterfacesRemoved :: "env \<Rightarrow> manager \<Rightarrow> string \<Rightarrow> string list \<Rightarrow> manager" where
  "slotInterfacesRemoved e s udi interfaces =
     (if udi = [] then s
      else if startsWith udi (UD2_DBUS_PATH_JOBS e) then s
      else if \<not> qcontains udi (m_cache s) then s
      else
        let cached = foldl (\<lambda>c iface. qremove iface c) (qvalue [] udi (m_cache s)) interfaces
        in if qisEmpty cached
           then s\<lparr>emitted := emitted s @ [DeviceRemoved udi], m_cache := qremove udi (m_cache s)\<rparr>
           else s\<lparr>m_cache := qinsert udi cached (m_cache s),
                   emitted := emitted s @ [DeviceRemoved udi, DeviceAdded udi]\<rparr>)"

text \<open>
  \<open>Manager::slotPropertiesChanged\<close>. The message carries its object path and its
  arguments; \<open>qdbus_cast\<close> of an argument of another type gives a default-constructed
  value.
\<close>

datatype dbus_arg = ArgString string | ArgVariantMap variant_map | ArgStringList "string list"

record dbus_message =
  msg_path :: string
  msg_arguments :: "dbus_arg list"

fun qdbus_cast_QString :: "dbus_arg \<Rightarrow> string" where
  "qdbus_cast_QString (ArgString x) = x"
| "qdbus_cast_QString _ = []"

fun qdbus_cast_QVariantMap :: "dbus_arg \<Rightarrow> variant_map" where
  "qdbus_cast_QVariantMap (ArgVariantMap m) = m"
| "qdbus_cast_QVariantMap _ = []"

fun qdbus_cast_QStringList :: "dbus_arg \<Rightarrow> string list" where
  "qdbus_cast_QStringList (ArgStringList xs) = xs"
| "qdbus_cast_QStringList _ = []"

text \<open>\<open>(*cachedIt)[iface].insert(prop, value)\<close> on the snapshot of one device.\<close>

definition iface_insert :: "string \<Rightarrow> string \<Rightarrow> variant \<Rightarrow> property_map \<Rightarrow> property_map" where
  "iface_insert iface prop v cached = qinsert iface (qinsert prop v (qvalue [] iface cached)) cached"

fun apply_invalidated ::
  "string \<Rightarrow> string list \<Rightarrow> property_map \<times> (string, PropertyChange) qmap
     \<Rightarrow> property_map \<times> (string, PropertyChange) qmap" where
  "apply_invalidated iface [] (cached, changeMap) = (cached, changeMap)"
| "apply_invalidated iface (prop # rest) (cached, changeMap) =
     apply_invalidated iface rest
       (iface_insert iface prop Invalid cached, qinsert prop PropertyModified changeMap)"

fun apply_changed ::
  "env \<Rightarrow> string \<Rightarrow> variant_map \<Rightarrow> property_map \<times> (string, PropertyChange) qmap
     \<Rightarrow> property_map \<times> (string, PropertyChange) qmap" where
  "apply_changed e iface [] (cached, changeMap) = (cached, changeMap)"
| "apply_changed e iface ((prop, v) # rest) (cached, changeMap) =
     apply_changed e iface rest
       (iface_insert iface prop (sanitizeValue e v) cached, qinsert prop PropertyModified changeMap)"

definition update_known :: "env \<Rightarrow> manager \<Rightarrow> string \<Rightarrow> string \<Rightarrow> variant_map \<Rightarrow> string list \<Rightarrow> manager" where
  "update_known e s udi iface changed invalidated =
     (let (cached, changeMap) =
            apply_changed e iface changed
              (apply_invalidated iface invalidated (qvalue [] udi (m_cache s), []))
      in s\<lparr>m_cache := qinsert udi cached (m_cache s),
            emitted := (if \<not> qisEmpty changeMap then emitted s @ [PropertyChanged udi changeMap]
                        else emitted s)\<rparr>)"

definition media_change :: "env \<Rightarrow> manager \<Rightarrow> bool \<Rightarrow> string \<Rightarrow> string \<Rightarrow> variant_map \<Rightarrow> manager" where
  "media_change e s knownDevice udi iface changed =
     (if iface = UD2_DBUS_INTERFACE_BLOCK e \<and> qcontains ''Size'' changed then
        let size = toULongLong e (qvalue Invalid ''Size'' changed);
            mediaInserted = (\<not> knownDevice \<and> size > 0);
            mediaRemoved = (knownDevice \<and> size = 0)
        in if mediaInserted \<or> mediaRemoved then
             if mightBeOpticalDisc e (m_cache s) udi then
               if \<not> knownDevice \<and> size > 0 then
                 s\<lparr>m_cache := qinsert udi (qinsert udi changed []) (m_cache s),
                   emitted := emitted s @ [DeviceAdded udi]\<rparr>
               else if knownDevice \<and> size = 0 then
                 s\<lparr>emitted := emitted s @ [DeviceRemoved udi], m_cache := qremove udi (m_cache s)\<rparr>
               else s
             else s
           else s
      else s)"

definition slotPropertiesChanged :: "env \<Rightarrow> manager \<Rightarrow> dbus_message \<Rightarrow> manager" where
  "slotPropertiesChanged e s msg =
     (let udi = msg_path msg
      in if udi = [] \<or> \<not> startsWith udi (UD2_UDI_DISKS_PREFIX e) \<or> startsWith udi (UD2_DBUS_PATH_JOBS e)
         then s
         else case msg_arguments msg of
           [a0, a1, a2] \<Rightarrow>
             let iface = qdbus_cast_QString a0;
                 changed = qdbus_cast_QVariantMap a1;
                 invalidated = qdbus_cast_QStringList a2;
                 knownDevice = qcontains udi (m_cache s);
                 s1 = (if knownDevice then update_known e s udi iface changed invalidated else s)
             in media_change e s1 knownDevice udi iface changed
         | _ \<Rightarrow> s)"

section \<open>The device registry (\<open>devicemanager.cpp\<close>)\<close>

text \<open>
  A backend is a value of type \<open>'b\<close> with the operations of \<open>Ifaces::DeviceManager\<close>
  that the registry calls; they may change the backend's own state. An entry \<open>None\<close> of
  the backend list is an object that \<open>qobject_cast<Ifaces::DeviceManager *>\<close> rejects.
\<close>

record 'b backend_ops =
  udiPrefix :: "'b \<Rightarrow> string"
  createDevice :: "'b \<Rightarrow> string \<Rightarrow> qobject option \<times> 'b"
  allDevices :: "'b \<Rightarrow> string list \<times> 'b"

record 'b query_ops =
  supportedInterfaces :: "'b \<Rightarrow> nat set"
  devicesFromQuery :: "'b \<Rightarrow> string \<Rightarrow> nat \<Rightarrow> string list \<times> 'b"

text \<open>\<open>DevicePrivate\<close>: the handle behind a \<open>Device\<close>; \<open>None\<close> is a null backend object.\<close>

record DevicePrivate =
  m_udi :: string
  m_backendObject :: "qobject option"

text \<open>
  \<open>Predicate\<close> (\<open>predicate.cpp\<close> is not under \<open>src/\<close>): a type \<open>'p\<close> with the four
  operations the queries call.
\<close>

record 'p predicate_ops =
  fromString :: "string \<Rightarrow> 'p"
  predicate_isValid :: "'p \<Rightarrow> bool"
  usedTypes :: "'p \<Rightarrow> nat set"
  matches :: "'p \<Rightarrow> DevicePrivate option \<Rightarrow> bool"

text \<open>
  The registry \<open>DeviceManagerPrivate\<close>. \<open>objects\<close> is the store of the live
  \<open>DevicePrivate\<close> objects by address and \<open>next_object\<close> the address that \<open>new\<close>
  returns next; \<open>notified\<close> lists the signals \<open>deviceAdded\<close> and \<open>deviceRemoved\<close>
  that the registry has emitted, oldest first.
\<close>

record 'b registry =
  m_nullDevice :: nat
  m_devicesMap :: "string \<rightharpoonup> nat"
  m_reverseMap :: "nat \<rightharpoonup> string"
  objects :: "nat \<rightharpoonup> DevicePrivate"
  next_object :: nat
  m_backends :: "'b option list"
  notified :: "event list"

datatype error = AssertionFailed

text \<open>The constructor: \<open>m_nullDevice(new DevicePrivate(QString()))\<close>, nothing registered.\<close>

definition DeviceManagerPrivate :: "'b option list \<Rightarrow> 'b registry" where
  "DeviceManagerPrivate backends =
     \<lparr>m_nullDevice = 0, m_devicesMap = Map.empty, m_reverseMap = Map.empty,
      objects = [0 \<mapsto> \<lparr>m_udi = [], m_backendObject = None\<rparr>], next_object = 1,
      m_backends = backends, notified = []\<rparr>"

text \<open>\<open>QPointer::data()\<close>: null once the object is destroyed.\<close>

definition QPointer_data :: "'b registry \<Rightarrow> nat \<Rightarrow> nat option" where
  "QPointer_data s p = (case objects s p of None \<Rightarrow> None | Some d \<Rightarrow> Some p)"

text \<open>
  Modelled from the spec: the two accessors of \<open>DevicePrivate\<close> (\<open>device.cpp\<close> is not
  under \<open>src/\<close>). A handle has a backing object that is null or bound;
  \<open>backendObject\<close> reads it and \<open>setBackendObject\<close> replaces it, and neither ends the
  handle's life.
\<close>

definition backendObject :: "'b registry \<Rightarrow> nat \<Rightarrow> qobject option" where
  "backendObject s dev = (case objects s dev of None \<Rightarrow> None | Some d \<Rightarrow> m_backendObject d)"

definition setBackendObject :: "'b registry \<Rightarrow> nat \<Rightarrow> qobject option \<Rightarrow> 'b registry" where
  "setBackendObject s dev ob =
     (case objects s dev of
        None \<Rightarrow> s
      | Some d \<Rightarrow> s\<lparr>objects := (objects s)(dev \<mapsto> d\<lparr>m_backendObject := ob\<rparr>)\<rparr>)"

text \<open>\<open>qobject_cast<Ifaces::Device *>\<close>.\<close>

fun qobject_cast_Device :: "qobject option \<Rightarrow> qobject option" where
  "qobject_cast_Device None = None"
| "qobject_cast_Device (Some PlainObject) = None"
| "qobject_cast_Device (Some ob) = Some ob"

text \<open>
  \<open>DeviceManagerPrivate::createBackendObject\<close>: the first backend whose prefix starts
  the identifier decides; the loop returns the backend list with that backend's new state.
\<close>

fun createBackendObject_loop ::
  "'b backend_ops \<Rightarrow> string \<Rightarrow> 'b option list \<Rightarrow> qobject option \<times> 'b option list" where
  "createBackendObject_loop ops udi [] = (None, [])"
| "createBackendObject_loop ops udi (None # backends) =
     (let (iface, backends') = createBackendObject_loop ops udi backends
      in (iface, None # backends'))"
| "createBackendObject_loop ops udi (Some backend # backends) =
     (if \<not> startsWith udi (udiPrefix ops backend) then
        (let (iface, backends') = createBackendObject_loop ops udi backends
         in (iface, Some backend # backends'))
      else
        (let (object, backend') = createDevice ops backend udi
         in (qobject_cast_Device object, Some backend' # backends)))"

definition createBackendObject :: "'b backend_ops \<Rightarrow> 'b registry \<Rightarrow> string \<Rightarrow> qobject option \<times> 'b registry" where
  "createBackendObject ops s udi =
     (let (iface, backends') = createBackendObject_loop ops udi (m_backends s)
      in (iface, s\<lparr>m_backends := backends'\<rparr>))"

text \<open>\<open>DeviceManagerPrivate::findRegisteredDevice\<close>; the result is the pointer returned.\<close>

definition findRegisteredDevice :: "'b backend_ops \<Rightarrow> 'b registry \<Rightarrow> string \<Rightarrow> nat option \<times> 'b registry" where
  "findRegisteredDevice ops s udi =
     (if udi = [] then (Some (m_nullDevice s), s)
      else case m_devicesMap s udi of
        Some p \<Rightarrow> (QPointer_data s p, s)
      | None \<Rightarrow>
          (let (iface, s1) = createBackendObject ops s udi;
               devData = next_object s1
           in (Some devData,
               s1\<lparr>objects := (objects s1)(devData \<mapsto> \<lparr>m_udi = udi, m_backendObject = iface\<rparr>),
                  next_object := Suc devData,
                  m_devicesMap := (m_devicesMap s1)(udi \<mapsto> devData),
                  m_reverseMap := (m_reverseMap s1)(devData \<mapsto> udi)\<rparr>)))"

text \<open>
  The two slots for the backends' signals. \<open>Q_ASSERT\<close> stops the program when assertions
  are compiled in (\<open>dbg\<close>) and the condition is false; otherwise it does nothing.
\<close>

definition k_deviceAdded :: "bool \<Rightarrow> 'b backend_ops \<Rightarrow> 'b registry \<Rightarrow> string \<Rightarrow> error + 'b registry" where
  "k_deviceAdded dbg ops s udi =
     (case (case m_devicesMap s udi of None \<Rightarrow> None | Some p \<Rightarrow> QPointer_data s p) of
        Some dev \<Rightarrow>
          if backendObject s dev = None then
            (let (iface, s1) = createBackendObject ops s udi;
                 s2 = setBackendObject s1 dev iface
             in if dbg \<and> \<not> (backendObject s2 dev \<noteq> None) then Inl AssertionFailed
                else Inr (s2\<lparr>notified := notified s2 @ [DeviceAdded udi]\<rparr>))
          else Inr (s\<lparr>notified := notified s @ [DeviceAdded udi]\<rparr>)
      | None \<Rightarrow> Inr (s\<lparr>notified := notified s @ [DeviceAdded udi]\<rparr>))"

definition k_deviceRemoved :: "bool \<Rightarrow> 'b registry \<Rightarrow> string \<Rightarrow> error + 'b registry" where
  "k_deviceRemoved dbg s udi =
     (case (case m_devicesMap s udi of None \<Rightarrow> None | Some p \<Rightarrow> QPointer_data s p) of
        Some dev \<Rightarrow>
          if dbg \<and> \<not> (backendObject s dev \<noteq> None) then Inl AssertionFailed
          else
            (let s1 = setBackendObject s dev None
             in if dbg \<and> \<not> (backendObject s1 dev = None) then Inl AssertionFailed
                else Inr (s1\<lparr>notified := notified s1 @ [DeviceRemoved udi]\<rparr>))
      | None \<Rightarrow> Inr (s\<lparr>notified := notified s @ [DeviceRemoved udi]\<rparr>))"

text \<open>\<open>DeviceManagerPrivate::_k_destroyed\<close>; \<open>QMap::take\<close> of a missing key is \<open>QString()\<close>.\<close>

definition k_destroyed :: "'b registry \<Rightarrow> nat \<Rightarrow> 'b registry" where
  "k_destroyed s object =
     (let udi = (case m_reverseMap s object of None \<Rightarrow> [] | Some u \<Rightarrow> u);
          s1 = s\<lparr>m_reverseMap := (m_reverseMap s)(object := None)\<rparr>
      in if udi \<noteq> [] then s1\<lparr>m_devicesMap := (m_devicesMap s1)(udi := None)\<rparr> else s1)"

text \<open>
  Modelled from the spec: the end of a handle's life, which \<open>Device\<close> and
  \<open>DevicePrivate\<close> (\<open>device.cpp\<close>, not under \<open>src/\<close>) decide by the reference count.
  \<open>delete\<close> of a \<open>DevicePrivate\<close> takes it out of the store, which empties every
  \<open>QPointer\<close> to it, and its \<open>destroyed\<close> signal runs the slot above.
\<close>

definition delete_DevicePrivate :: "'b registry \<Rightarrow> nat \<Rightarrow> 'b registry" where
  "delete_DevicePrivate s object = k_destroyed (s\<lparr>objects := (objects s)(object := None)\<rparr>) object"

text \<open>\<open>Device::allDevices\<close>: \<open>Device(udi)\<close> looks the handle up in the registry.\<close>

fun Device_list ::
  "'b backend_ops \<Rightarrow> 'b registry \<Rightarrow> string list \<Rightarrow> nat option list \<Rightarrow> nat option list \<times> 'b registry" where
  "Device_list ops s [] list = (list, s)"
| "Device_list ops s (udi # udis) list =
     (let (dev, s1) = findRegisteredDevice ops s udi in Device_list ops s1 udis (list @ [dev]))"

fun Device_allDevices_loop ::
  "'b backend_ops \<Rightarrow> 'b registry \<Rightarrow> nat list \<Rightarrow> nat option list \<Rightarrow> nat option list \<times> 'b registry" where
  "Device_allDevices_loop ops s [] list = (list, s)"
| "Device_allDevices_loop ops s (i # rest) list =
     (case m_backends s ! i of
        None \<Rightarrow> Device_allDevices_loop ops s rest list
      | Some backend \<Rightarrow>
          (let (udis, backend') = allDevices ops backend;
               (list', s1) = Device_list ops (s\<lparr>m_backends := (m_backends s)[i := Some backend']\<rparr>) udis list
           in Device_allDevices_loop ops s1 rest list'))"

definition Device_allDevices :: "'b backend_ops \<Rightarrow> 'b registry \<Rightarrow> nat option list \<times> 'b registry" where
  "Device_allDevices ops s = Device_allDevices_loop ops s [0..<length (m_backends s)] []"

text \<open>\<open>Device::listFromQuery(const Predicate &, const QString &)\<close>, inner loops first.\<close>

fun query_types ::
  "'b query_ops \<Rightarrow> 'b registry \<Rightarrow> nat \<Rightarrow> string \<Rightarrow> nat list \<Rightarrow> string list \<Rightarrow> string list \<times> 'b registry" where
  "query_types qops s i parentUdi [] udis = (udis, s)"
| "query_types qops s i parentUdi (t # types) udis =
     (case m_backends s ! i of
        None \<Rightarrow> query_types qops s i parentUdi types udis
      | Some backend \<Rightarrow>
          (let (found, backend') = devicesFromQuery qops backend parentUdi t
           in query_types qops (s\<lparr>m_backends := (m_backends s)[i := Some backend']\<rparr>) i parentUdi
                types (udis @ found)))"

fun candidates_loop ::
  "'b backend_ops \<Rightarrow> 'p predicate_ops \<Rightarrow> 'p \<Rightarrow> 'b registry \<Rightarrow> string list \<Rightarrow> string list
     \<Rightarrow> nat option list \<Rightarrow> nat option list \<times> 'b registry" where
  "candidates_loop ops pops predicate s [] seen list = (list, s)"
| "candidates_loop ops pops predicate s (udi # udis) seen list =
     (if udi \<in> set seen then candidates_loop ops pops predicate s udis seen list
      else
        (let (dev, s1) = findRegisteredDevice ops s udi;
             m = (if \<not> predicate_isValid pops predicate then True
                  else matches pops predicate (case dev of None \<Rightarrow> None | Some a \<Rightarrow> objects s1 a))
         in candidates_loop ops pops predicate s1 udis (udi # seen) (if m then list @ [dev] else list)))"

fun listFromQuery_loop ::
  "'b backend_ops \<Rightarrow> 'b query_ops \<Rightarrow> 'p predicate_ops \<Rightarrow> 'p \<Rightarrow> string \<Rightarrow> 'b registry \<Rightarrow> nat list
     \<Rightarrow> nat option list \<Rightarrow> nat option list \<times> 'b registry" where
  "listFromQuery_loop ops qops pops predicate parentUdi s [] list = (list, s)"
| "listFromQuery_loop ops qops pops predicate parentUdi s (i # rest) list =
     (case m_backends s ! i of
        None \<Rightarrow> listFromQuery_loop ops qops pops predicate parentUdi s rest list
      | Some backend \<Rightarrow>
          if predicate_isValid pops predicate then
            (let supportedTypes = supportedInterfaces qops backend \<inter> usedTypes pops predicate
             in if supportedTypes = {} then listFromQuery_loop ops qops pops predicate parentUdi s rest list
                else
                  (let (udis, s1) = query_types qops s i parentUdi (sorted_list_of_set supportedTypes) [];
                       (list', s2) = candidates_loop ops pops predicate s1 udis [] list
                   in listFromQuery_loop ops qops pops predicate parentUdi s2 rest list'))
          else
            (let (udis, backend') = allDevices ops backend;
                 (list', s2) = candidates_loop ops pops predicate
                                 (s\<lparr>m_backends := (m_backends s)[i := Some backend']\<rparr>) udis [] list
             in listFromQuery_loop ops qops pops predicate parentUdi s2 rest list'))"

definition listFromQuery ::
  "'b backend_ops \<Rightarrow> 'b query_ops \<Rightarrow> 'p predicate_ops \<Rightarrow> 'b registry \<Rightarrow> 'p \<Rightarrow> string
     \<Rightarrow> nat option list \<times> 'b registry" where
  "listFromQuery ops qops pops s predicate parentUdi =
     listFromQuery_loop ops qops pops predicate parentUdi s [0..<length (m_backends s)] []"

text \<open>\<open>Device::listFromQuery(const QString &, const QString &)\<close>.\<close>

definition listFromQuery_QString ::
  "'b backend_ops \<Rightarrow> 'b query_ops \<Rightarrow> 'p predicate_ops \<Rightarrow> 'b registry \<Rightarrow> string \<Rightarrow> string
     \<Rightarrow> nat option list \<times> 'b registry" where
  "listFromQuery_QString ops qops pops s predicate parentUdi =
     (let p = fromString pops predicate
      in if predicate_isValid pops p then listFromQuery ops qops pops s p parentUdi
         else ([], s))"

section \<open>Runs of the registry\<close>

text \<open>
  What can happen to a registry, one after the other: a consumer looks an identifier up,
  a backend signals that a device was added or removed, a handle other than the null
  device is deleted. A run stops at the first failed assertion.
\<close>

datatype registry_action = Lookup string | BackendAdded string | BackendRemoved string | Delete nat

fun registry_step :: "bool \<Rightarrow> 'b backend_ops \<Rightarrow> registry_action \<Rightarrow> 'b registry \<Rightarrow> error + 'b registry" where
  "registry_step dbg ops (Lookup udi) s = Inr (snd (findRegisteredDevice ops s udi))"
| "registry_step dbg ops (BackendAdded udi) s = k_deviceAdded dbg ops s udi"
| "registry_step dbg ops (BackendRemoved udi) s = k_deviceRemoved dbg s udi"
| "registry_step dbg ops (Delete a) s =
     Inr (if a = m_nullDevice s then s else delete_DevicePrivate s a)"

fun registry_run :: "bool \<Rightarrow> 'b backend_ops \<Rightarrow> registry_action list \<Rightarrow> 'b registry \<Rightarrow> error + 'b registry" where
  "registry_run dbg ops [] s = Inr s"
| "registry_run dbg ops (a # as) s =
     (case registry_step dbg ops a s of Inl err \<Rightarrow> Inl err | Inr s1 \<Rightarrow> registry_run dbg ops as s1)"

section \<open>The registry on top of the UDisks2 manager\<close>

text \<open>The manager as the registry's backend.\<close>

definition udisks_ops :: "env \<Rightarrow> manager backend_ops" where
  "udisks_ops e =
     \<lparr>udiPrefix = (\<lambda>m. UD2_UDI_DISKS_PREFIX e),
      createDevice = Manager_createDevice e,
      allDevices = Manager_allDevices e\<rparr>"

text \<open>
  The constructor of the registry connects \<open>deviceAdded\<close> and \<open>deviceRemoved\<close> of every
  backend to its two slots; \<open>propertyChanged\<close> is not connected. The signals of one
  manager slot are delivered in the order of their emission. They are delivered on the
  manager's state at the end of its slot: \<open>deviceAdded\<close> is always the slot's last
  action, and the registry's slot for \<open>deviceRemoved\<close> does not call the backend. The
  whole is a registry whose only backend is the manager; on any other list of backends
  \<open>manager_slot\<close> does nothing.
\<close>

fun deliver :: "bool \<Rightarrow> 'b backend_ops \<Rightarrow> event list \<Rightarrow> 'b registry \<Rightarrow> error + 'b registry" where
  "deliver dbg ops [] s = Inr s"
| "deliver dbg ops (DeviceAdded udi # evs) s =
     (case k_deviceAdded dbg ops s udi of Inl err \<Rightarrow> Inl err | Inr s1 \<Rightarrow> deliver dbg ops evs s1)"
| "deliver dbg ops (DeviceRemoved udi # evs) s =
     (case k_deviceRemoved dbg s udi of Inl err \<Rightarrow> Inl err | Inr s1 \<Rightarrow> deliver dbg ops evs s1)"
| "deliver dbg ops (PropertyChanged udi changeMap # evs) s = deliver dbg ops evs s"

definition manager_slot ::
  "bool \<Rightarrow> env \<Rightarrow> (manager \<Rightarrow> manager) \<Rightarrow> manager registry \<Rightarrow> error + manager registry" where
  "manager_slot dbg e slot s =
     (case m_backends s of
        [Some m] \<Rightarrow>
          (let m' = slot m
           in deliver dbg (udisks_ops e) (drop (length (emitted m)) (emitted m'))
                (s\<lparr>m_backends := [Some m']\<rparr>))
      | _ \<Rightarrow> Inr s)"

text \<open>
  One step of the whole: a call of a consumer (\<open>Device(udi)\<close>, \<open>Device::allDevices()\<close>)
  or a signal of the UDisks2 service, each with the service as it answers at that time.
\<close>

datatype system_action =
    NewDevice string
  | AllDevices
  | InterfacesAdded string property_map
  | InterfacesRemoved string "string list"
  | PropertiesChanged dbus_message

fun system_step :: "bool \<Rightarrow> env \<Rightarrow> system_action \<Rightarrow> manager registry \<Rightarrow> error + manager registry" where
  "system_step dbg e (NewDevice udi) s = Inr (snd (findRegisteredDevice (udisks_ops e) s udi))"
| "system_step dbg e AllDevices s = Inr (snd (Device_allDevices (udisks_ops e) s))"
| "system_step dbg e (InterfacesAdded udi ifaces) s =
     manager_slot dbg e (\<lambda>m. slotInterfacesAdded e m udi ifaces) s"
| "system_step dbg e (InterfacesRemoved udi ifaces) s =
     manager_slot dbg e (\<lambda>m. slotInterfacesRemoved e m udi ifaces) s"
| "system_step dbg e (PropertiesChanged msg) s =
     manager_slot dbg e (\<lambda>m. slotPropertiesChanged e m msg) s"

fun system_run :: "bool \<Rightarrow> (env \<times> system_action) list \<Rightarrow> manager registry \<Rightarrow> error + manager registry" where
  "system_run dbg [] s = Inr s"
| "system_run dbg ((e, a) # rest) s =
     (case system_step dbg e a s of Inl err \<Rightarrow> Inl err | Inr s1 \<Rightarrow> system_run dbg rest s1)"

section \<open>Runs of the manager\<close>

text \<open>
  The object path of a signal of the object manager. D-Bus delivers no message whose
  object path does not begin with a slash, so none with an empty path.
\<close>

definition isValidObjectPath :: "string \<Rightarrow> bool" where
  "isValidObjectPath p = (case p of [] \<Rightarrow> False | c # cs \<Rightarrow> c = CHR ''/'')"

text \<open>
  What can happen to a manager, one after the other, each with the service as it answers
  at that time: a call of \<open>allDevices\<close>, of \<open>deviceCache\<close> (as \<open>hasInterface\<close>,
  \<open>deviceProperties\<close> and \<open>devicesFromQuery\<close> make it), of \<open>createDevice\<close> or of
  \<open>deviceProperty\<close>, and the three signals of the service. The constructor leaves the
  cache empty.
\<close>

datatype manager_action =
    CallAllDevices
  | CallDeviceCache
  | CallCreateDevice string
  | CallDeviceProperty string string FetchMode
  | SignalInterfacesAdded string property_map
  | SignalInterfacesRemoved string "string list"
  | SignalPropertiesChanged dbus_message

fun manager_step :: "env \<Rightarrow> manager_action \<Rightarrow> manager \<Rightarrow> manager" where
  "manager_step e CallAllDevices s = snd (Manager_allDevices e s)"
| "manager_step e CallDeviceCache s = snd (deviceCache e s)"
| "manager_step e (CallCreateDevice udi) s = snd (Manager_createDevice e s udi)"
| "manager_step e (CallDeviceProperty udi name fetchMode) s = snd (deviceProperty e s udi name fetchMode)"
| "manager_step e (SignalInterfacesAdded object_path ifaces) s =
     (if isValidObjectPath object_path then slotInterfacesAdded e s object_path ifaces else s)"
| "manager_step e (SignalInterfacesRemoved object_path ifaces) s =
     (if isValidObjectPath object_path then slotInterfacesRemoved e s object_path ifaces else s)"
| "manager_step e (SignalPropertiesChanged msg) s = slotPropertiesChanged e s msg"

fun manager_run :: "(env \<times> manager_action) list \<Rightarrow> manager \<Rightarrow> manager" where
  "manager_run [] s = s"
| "manager_run ((e, a) # rest) s = manager_run rest (manager_step e a s)"

section \<open>Observations and sample data\<close>

text \<open>
  What a read of \<open>name\<close> finds in a device's snapshot: the first interface, in the
  order of iteration, that holds the property, and the value it holds there.
\<close>

fun find_property :: "string \<Rightarrow> property_map \<Rightarrow> (string \<times> variant) option" where
  "find_property name [] = None"
| "find_property name ((iface, m) # rest) =
     (case map_of m name of Some v \<Rightarrow> Some (iface, v) | None \<Rightarrow> find_property name rest)"

text \<open>
  A live handle of the registry for \<open>udi\<close>: the address in the identity map, when the
  object behind it still exists.
\<close>

definition live_handle :: "'b registry \<Rightarrow> string \<Rightarrow> nat option" where
  "live_handle s udi = (case m_devicesMap s udi of None \<Rightarrow> None | Some p \<Rightarrow> QPointer_data s p)"

text \<open>
  The interfaces of an \<open>InterfacesAdded\<close> signal that the manager takes over: those
  whose name starts with the name of the UDisks2 service; of two entries with one name
  the later one counts.
\<close>

definition taken_interfaces :: "env \<Rightarrow> property_map \<Rightarrow> string \<rightharpoonup> variant_map" where
  "taken_interfaces e supplied =
     map_of (rev (filter (\<lambda>(iface, props). startsWith iface (UD2_DBUS_SERVICE e)) supplied))"

text \<open>
  The backend that an identifier is routed to: the first proper backend of the list whose
  prefix starts the identifier.
\<close>

definition routing_backend :: "'b backend_ops \<Rightarrow> 'b option list \<Rightarrow> string \<Rightarrow> 'b option" where
  "routing_backend ops backends udi =
     List.find (\<lambda>b. startsWith udi (udiPrefix ops b)) (List.map_filter (\<lambda>b. b) backends)"

text \<open>
  A service for the examples. Its constants are those of the UDisks2 D-Bus interface; it
  answers no property request, manages one disk, converts only unsigned integers with
  \<open>toULongLong\<close> and takes every device for a possible optical disc.
\<close>

definition sample_env :: env where
  "sample_env =
     \<lparr>UD2_DBUS_SERVICE = ''org.freedesktop.UDisks2'',
      UD2_DBUS_PATH_JOBS = ''/org/freedesktop/UDisks2/jobs/'',
      UD2_DBUS_PATH_BLOCK_DEVICES = ''/org/freedesktop/UDisks2/block_devices/'',
      UD2_DBUS_PATH_DRIVES = ''/org/freedesktop/UDisks2/drives/'',
      UD2_UDI_DISKS_PREFIX = ''/org/freedesktop/UDisks2'',
      UD2_DBUS_INTERFACE_BLOCK = ''org.freedesktop.UDisks2.Block'',
      UD2_DBUS_INTERFACE_FILESYSTEM = ''org.freedesktop.UDisks2.Filesystem'',
      reply_Get = (\<lambda>udi iface name. Invalid),
      reply_GetAll = (\<lambda>udi iface. None),
      reply_GetManagedObjects =
        Some [(''/org/freedesktop/UDisks2/block_devices/sda'', [(''org.freedesktop.UDisks2.Block'', [])])],
      sanitizeValue = (\<lambda>v. v),
      sanitizeMap = (\<lambda>m. m),
      toULongLong = (\<lambda>v. case v of VUInt64 w \<Rightarrow> w | _ \<Rightarrow> 0),
      mightBeOpticalDisc = (\<lambda>c udi. True)\<rparr>"

definition sr0 :: string where
  "sr0 = ''/org/freedesktop/UDisks2/block_devices/sr0''"

definition Block :: string where
  "Block = ''org.freedesktop.UDisks2.Block''"

definition Filesystem :: string where
  "Filesystem = ''org.freedesktop.UDisks2.Filesystem''"

text \<open>A manager that tracks \<open>sr0\<close> with two interfaces; the size is known, the label is not.\<close>

definition sample_manager :: manager where
  "sample_manager =
     \<lparr>m_cache = [(sr0, [(Block, [(''Size'', VUInt64 512)]), (Filesystem, [(''Label'', Invalid)])])],
      emitted = [], dbus_calls = []\<rparr>"

definition empty_manager :: manager where
  "empty_manager = \<lparr>m_cache = [], emitted = [], dbus_calls = []\<rparr>"

text \<open>
  The three paths of \<open>udisks2.h\<close> that decide which objects are devices. They lie apart
  when the jobs path and the path of the block devices, and the jobs path and the path of
  the drives, are no prefixes of each other: then no object is a job and a device at once.
\<close>

definition paths_of :: "env \<Rightarrow> string \<times> string \<times> string" where
  "paths_of e = (UD2_DBUS_PATH_JOBS e, UD2_DBUS_PATH_BLOCK_DEVICES e, UD2_DBUS_PATH_DRIVES e)"

definition paths_apart :: "env \<Rightarrow> bool" where
  "paths_apart e \<longleftrightarrow>
     \<not> prefix (UD2_DBUS_PATH_JOBS e) (UD2_DBUS_PATH_BLOCK_DEVICES e) \<and>
     \<not> prefix (UD2_DBUS_PATH_BLOCK_DEVICES e) (UD2_DBUS_PATH_JOBS e) \<and>
     \<not> prefix (UD2_DBUS_PATH_JOBS e) (UD2_DBUS_PATH_DRIVES e) \<and>
     \<not> prefix (UD2_DBUS_PATH_DRIVES e) (UD2_DBUS_PATH_JOBS e)"

text \<open>What holds of the tracked identifiers at any time (it is proved below).\<close>

definition tracked_ok :: "env \<Rightarrow> manager \<Rightarrow> bool" where
  "tracked_ok e s \<longleftrightarrow>
     (\<forall>udi. qcontains udi (m_cache s) \<longrightarrow> udi \<noteq> [] \<and> \<not> startsWith udi (UD2_DBUS_PATH_JOBS e))"

text \<open>
  What holds of a registry at any time (it is proved below): an entry of the identity map
  has an identifier that is not empty and the address of a live handle with this
  identifier, which is not the null device; the reverse map is the inverse of the identity
  map; \<open>new\<close> returns an address that is not in use; the null device is alive and has
  the empty identifier; and every other live handle is the one that the identity map has
  for its identifier.
\<close>

definition registry_ok :: "'b registry \<Rightarrow> bool" where
  "registry_ok s \<longleftrightarrow>
     (\<forall>udi a. m_devicesMap s udi = Some a \<longrightarrow>
        udi \<noteq> [] \<and> a \<noteq> m_nullDevice s \<and> map_option m_udi (objects s a) = Some udi \<and>
        m_reverseMap s a = Some udi) \<and>
     (\<forall>a udi. m_reverseMap s a = Some udi \<longrightarrow> m_devicesMap s udi = Some a) \<and>
     (\<forall>a. objects s a \<noteq> None \<longrightarrow> a < next_object s) \<and>
     map_option m_udi (objects s (m_nullDevice s)) = Some [] \<and>
     (\<forall>a d. objects s a = Some d \<and> a \<noteq> m_nullDevice s \<longrightarrow> m_devicesMap s (m_udi d) = Some a)"

text \<open>Sample registries: one with a handle for \<open>sr0\<close>, on top of the sample manager.\<close>

definition sample_registry :: "qobject option \<Rightarrow> manager registry" where
  "sample_registry ob =
     \<lparr>m_nullDevice = 0, m_devicesMap = [sr0 \<mapsto> 1], m_reverseMap = [1 \<mapsto> sr0],
      objects = [0 \<mapsto> \<lparr>m_udi = [], m_backendObject = None\<rparr>,
                 1 \<mapsto> \<lparr>m_udi = sr0, m_backendObject = ob\<rparr>],
      next_object = 2, m_backends = [Some sample_manager], notified = []\<rparr>"

definition sdz :: string where
  "sdz = ''/org/freedesktop/UDisks2/block_devices/sdz''"

text \<open>Sample operations for the queries: a backend that lists what it caches, and predicates
  of which only \<open>IS Block\<close> parses.\<close>

definition sample_query_ops :: "manager query_ops" where
  "sample_query_ops =
     \<lparr>supportedInterfaces = (\<lambda>m. {1, 3, 4, 5, 6, 7, 8}),
      devicesFromQuery = (\<lambda>m parentUdi t. (qkeys (m_cache m), m))\<rparr>"

definition sample_predicate_ops :: "nat option predicate_ops" where
  "sample_predicate_ops =
     \<lparr>fromString = (\<lambda>s. if s = ''IS Block'' then Some 3 else None),
      predicate_isValid = (\<lambda>p. p \<noteq> None),
      usedTypes = (\<lambda>p. case p of None \<Rightarrow> {} | Some t \<Rightarrow> {t}),
      matches = (\<lambda>p d. p \<noteq> None \<and> d \<noteq> None)\<rparr>"

text \<open>
  A later state of the service, which manages \<open>sr0\<close> as well, and the states of the
  manager and of the registry in the run that claim C10 is about.
\<close>

definition sda :: string where
  "sda = ''/org/freedesktop/UDisks2/block_devices/sda''"

definition later_env :: env where
  "later_env = sample_env\<lparr>reply_GetManagedObjects := Some [(sda, [(Block, [])]), (sr0, [(Block, [])])]\<rparr>"

definition two_disks :: manager where
  "two_disks = \<lparr>m_cache = [(sda, [(Block, [])]), (sr0, [(Block, [])])], emitted = [],
     dbus_calls = [GetManagedObjects, GetManagedObjects]\<rparr>"

definition one_disk :: manager where
  "one_disk = \<lparr>m_cache = [(sda, [(Block, [])])], emitted = [], dbus_calls = [GetManagedObjects]\<rparr>"

definition unresolved_registry :: "manager registry" where
  "unresolved_registry =
     \<lparr>m_nullDevice = 0, m_devicesMap = [sr0 \<mapsto> 1], m_reverseMap = [1 \<mapsto> sr0],
      objects = [0 \<mapsto> \<lparr>m_udi = [], m_backendObject = None\<rparr>,
                 1 \<mapsto> \<lparr>m_udi = sr0, m_backendObject = None\<rparr>],
      next_object = 2, m_backends = [Some one_disk], notified = []\<rparr>"

definition resynced_registry :: "manager registry" where
  "resynced_registry =
     \<lparr>m_nullDevice = 0, m_devicesMap = [sr0 \<mapsto> 1, sda \<mapsto> 2], m_reverseMap = [1 \<mapsto> sr0, 2 \<mapsto> sda],
      objects = [0 \<mapsto> \<lparr>m_udi = [], m_backendObject = None\<rparr>,
                 1 \<mapsto> \<lparr>m_udi = sr0, m_backendObject = None\<rparr>,
                 2 \<mapsto> \<lparr>m_udi = sda, m_backendObject = Some (Device sda)\<rparr>],
      next_object = 3, m_backends = [Some two_disks], notified = []\<rparr>"

section \<open>Facts about the containers\<close>

lemma map_of_qinsert: "map_of (qinsert k v m) = (map_of m)(k \<mapsto> v)"
  by (induction m) (auto simp: fun_eq_iff)

lemma qvalue_qinsert_same: "qvalue d k (qinsert k v m) = v"
  by (simp add: qvalue_def map_of_qinsert)

lemma qvalue_qinsert_other: "k' \<noteq> k \<Longrightarrow> qvalue d k' (qinsert k v m) = qvalue d k' m"
  by (simp add: qvalue_def map_of_qinsert)

lemma map_of_qremove: "map_of (qremove k m) = (map_of m)(k := None)"
  by (induction m) (auto simp: qremove_def fun_eq_iff)

lemma foldl_qremove:
  "foldl (\<lambda>c iface. qremove iface c) m ifaces = filter (\<lambda>kv. fst kv \<notin> set ifaces) m"
proof (induction ifaces arbitrary: m)
  case Nil
  then show ?case by simp
next
  case (Cons i ifaces)
  have "foldl (\<lambda>c iface. qremove iface c) (qremove i m) ifaces
          = filter (\<lambda>kv. fst kv \<notin> set ifaces) (qremove i m)"
    by (simp add: Cons.IH)
  then show ?case by (simp add: qremove_def conj_commute)
qed

lemma map_of_filter_keys:
  "map_of (filter (\<lambda>kv. fst kv \<notin> A) m) k = (if k \<in> A then None else map_of m k)"
  by (induction m) auto

lemma filter_keys_empty:
  "(filter (\<lambda>kv. fst kv \<notin> A) m = []) = (fst ` set m \<subseteq> A)"
  by (induction m) auto

lemma qcontains_qinsert: "qcontains k' (qinsert k v m) = (k' = k \<or> qcontains k' m)"
  by (simp add: qcontains_def map_of_qinsert)

lemma qcontains_qremove: "qcontains k' (qremove k m) = (k' \<noteq> k \<and> qcontains k' m)"
  by (simp add: qcontains_def map_of_qremove)

lemma qvalue_not_contained: "\<not> qcontains k m \<Longrightarrow> qvalue d k m = d"
  by (simp add: qcontains_def qvalue_def)

lemma in_qkeys: "(i \<in> set (qkeys m)) = (map_of m i \<noteq> None)"
  by (induction m) (auto simp: qkeys_def)

lemma set_remove1_distinct: "distinct xs \<Longrightarrow> (i \<in> set (remove1 x xs)) = (i \<in> set xs \<and> i \<noteq> x)"
  by auto

section \<open>Reading a property: \<open>Manager::deviceProperty\<close>\<close>

lemma deviceProperty_loop_CachedOnly:
  "deviceProperty_loop e s udi name CachedOnly props =
     ((case find_property name props of None \<Rightarrow> Invalid | Some (i, v) \<Rightarrow> v), s)"
  by (induction props) (auto split: option.splits)

lemma deviceProperty_loop_FetchIfNeeded:
  "deviceProperty_loop e s udi name FetchIfNeeded props =
     (case find_property name props of
        None \<Rightarrow> (Invalid, s)
      | Some (i, v) \<Rightarrow>
          if v = Invalid then
            (sanitizeValue e (reply_Get e udi i name),
             s\<lparr>m_cache := cache_store udi i name (sanitizeValue e (reply_Get e udi i name)) (m_cache s),
               dbus_calls := dbus_calls s @ [Get udi i name]\<rparr>)
          else (v, s))"
  by (induction props) (auto split: option.splits simp: isValid_def Let_def)

lemma find_property_qinsert:
  "find_property name props = Some (i, x) \<Longrightarrow> map_of pm name = Some v \<Longrightarrow>
   find_property name (qinsert i pm props) = Some (i, v)"
  by (induction props) (auto split: option.splits if_splits)

lemma qvalue_cache_store:
  "qvalue [] udi (cache_store udi i name v c) =
     qinsert i (qinsert name v (qvalue [] i (qvalue [] udi c))) (qvalue [] udi c)"
  by (simp add: cache_store_def Let_def qvalue_qinsert_same)

lemma find_property_cache_store:
  "find_property name (qvalue [] udi c) = Some (i, x) \<Longrightarrow>
   find_property name (qvalue [] udi (cache_store udi i name v c)) = Some (i, v)"
  by (simp add: qvalue_cache_store find_property_qinsert map_of_qinsert)

lemmas sample_defs = sample_manager_def empty_manager_def sample_env_def sr0_def Block_def
  Filesystem_def qvalue_def qcontains_def qisEmpty_def qremove_def qkeys_def isValid_def
  startsWith_def Let_def

text \<open>
  Claim C4, as amended. A read in mode \<open>FetchIfNeeded\<close> looks for the first cached
  interface of the identifier that has the property. If that interface holds the
  unresolved value, the manager makes one \<open>Get\<close> call for this interface and property,
  stores the sanitized value of the reply under it, valid or not, emits nothing and
  returns the value; when the value is valid, every later read in either mode returns it
  with no further call and no change. If the interface holds a resolved value, the read
  returns it and changes nothing. If no cached interface has the property, the read
  returns an invalid value, makes no call and stores nothing.
\<close>

theorem deviceProperty_FetchIfNeeded:
  "(case find_property name (qvalue [] udi (m_cache s)) of
      None \<Rightarrow> deviceProperty e s udi name FetchIfNeeded = (Invalid, s)
    | Some (iface, v) \<Rightarrow>
        if v = Invalid then
          (let val = sanitizeValue e (reply_Get e udi iface name);
               s' = snd (deviceProperty e s udi name FetchIfNeeded)
           in fst (deviceProperty e s udi name FetchIfNeeded) = val \<and>
              dbus_calls s' = dbus_calls s @ [Get udi iface name] \<and>
              emitted s' = emitted s \<and>
              find_property name (qvalue [] udi (m_cache s')) = Some (iface, val) \<and>
              (val \<noteq> Invalid \<longrightarrow> (\<forall>e' mode. deviceProperty e' s' udi name mode = (val, s'))))
        else deviceProperty e s udi name FetchIfNeeded = (v, s))"
proof (cases "find_property name (qvalue [] udi (m_cache s))")
  case None
  then show ?thesis by (simp add: deviceProperty_def deviceProperty_loop_FetchIfNeeded)
next
  case (Some iv)
  obtain i v where iv: "iv = (i, v)" by (cases iv)
  show ?thesis
  proof (cases "v = Invalid")
    case True
    let ?val = "sanitizeValue e (reply_Get e udi i name)"
    let ?s' = "s\<lparr>m_cache := cache_store udi i name ?val (m_cache s),
                  dbus_calls := dbus_calls s @ [Get udi i name]\<rparr>"
    have dp: "deviceProperty e s udi name FetchIfNeeded = (?val, ?s')"
      using Some iv True by (simp add: deviceProperty_def deviceProperty_loop_FetchIfNeeded)
    have fp: "find_property name (qvalue [] udi (m_cache ?s')) = Some (i, ?val)"
      using Some iv by (simp add: find_property_cache_store)
    have again: "deviceProperty e' ?s' udi name mode = (?val, ?s')" if "?val \<noteq> Invalid" for e' mode
      using fp that
      by (cases mode)
        (simp_all add: deviceProperty_def deviceProperty_loop_FetchIfNeeded deviceProperty_loop_CachedOnly)
    show ?thesis using Some iv True dp fp again by (simp add: Let_def)
  next
    case False
    with Some iv show ?thesis by (simp add: deviceProperty_def deviceProperty_loop_FetchIfNeeded)
  qed
qed

theorem deviceProperty_FetchIfNeeded_witness:
  "find_property ''Label'' (qvalue [] sr0 (m_cache sample_manager)) = Some (Filesystem, Invalid) \<and>
   fst (deviceProperty (sample_env\<lparr>reply_Get := \<lambda>u i n. VString ''x''\<rparr>) sample_manager sr0 ''Label''
          FetchIfNeeded) = VString ''x'' \<and>
   dbus_calls (snd (deviceProperty (sample_env\<lparr>reply_Get := \<lambda>u i n. VString ''x''\<rparr>) sample_manager sr0
          ''Label'' FetchIfNeeded)) = [Get sr0 Filesystem ''Label''] \<and>
   find_property ''Label'' (qvalue [] sr0 (m_cache (snd
       (deviceProperty (sample_env\<lparr>reply_Get := \<lambda>u i n. VString ''x''\<rparr>) sample_manager sr0 ''Label''
          FetchIfNeeded)))) = Some (Filesystem, VString ''x'')"
  using deviceProperty_FetchIfNeeded [where e = "sample_env\<lparr>reply_Get := \<lambda>u i n. VString ''x''\<rparr>"
      and s = sample_manager and udi = sr0 and name = "''Label''"]
  by (simp add: sample_defs deviceProperty_def cache_store_def)

text \<open>
  The claim as it was stated fails where the property is missing from the cache: the
  snapshot of \<open>sr0\<close> has no property \<open>Drive\<close>, and the read makes no call and stores
  nothing.
\<close>

theorem deviceProperty_FetchIfNeeded_counterexample:
  "find_property ''Drive'' (qvalue [] sr0 (m_cache sample_manager)) = None \<and>
   deviceProperty sample_env sample_manager sr0 ''Drive'' FetchIfNeeded = (Invalid, sample_manager) \<and>
   dbus_calls sample_manager = []"
  by (simp add: sample_defs deviceProperty_def)

text \<open>
  What the amended claim leaves open: a reply without a valid value is stored as
  \<open>QVariant()\<close>, which is the unresolved value itself, so the next read in mode
  \<open>FetchIfNeeded\<close> asks the service again.
\<close>

lemma invalid_reply_is_fetched_again:
  assumes "find_property name (qvalue [] udi (m_cache s)) = Some (iface, Invalid)"
    and "sanitizeValue e (reply_Get e udi iface name) = Invalid"
  shows "dbus_calls (snd (deviceProperty e (snd (deviceProperty e s udi name FetchIfNeeded)) udi name
            FetchIfNeeded)) = dbus_calls s @ [Get udi iface name, Get udi iface name]"
proof -
  let ?s' = "s\<lparr>m_cache := cache_store udi iface name Invalid (m_cache s),
                dbus_calls := dbus_calls s @ [Get udi iface name]\<rparr>"
  have first: "deviceProperty e s udi name FetchIfNeeded = (Invalid, ?s')"
    using assms by (simp add: deviceProperty_def deviceProperty_loop_FetchIfNeeded)
  have "find_property name (qvalue [] udi (m_cache ?s')) = Some (iface, Invalid)"
    using assms(1) by (simp add: find_property_cache_store)
  then have "dbus_calls (snd (deviceProperty e ?s' udi name FetchIfNeeded))
      = dbus_calls s @ [Get udi iface name, Get udi iface name]"
    using assms(2) by (simp add: deviceProperty_def deviceProperty_loop_FetchIfNeeded)
  then show ?thesis unfolding first snd_conv .
qed

text \<open>
  Claim C6. A read in mode \<open>CachedOnly\<close> leaves the manager as it was, so a later read
  sees what it would have seen; and after a read in mode \<open>FetchIfNeeded\<close>, a read of
  the same property in mode \<open>CachedOnly\<close> returns the same value, whatever the service
  would answer by then.
\<close>

theorem lazy_resolution_idempotence:
  "snd (deviceProperty e s udi name CachedOnly) = s \<and>
   fst (deviceProperty e' (snd (deviceProperty e s udi name FetchIfNeeded)) udi name CachedOnly)
     = fst (deviceProperty e s udi name FetchIfNeeded)"
proof (cases "find_property name (qvalue [] udi (m_cache s))")
  case None
  then show ?thesis
    by (simp add: deviceProperty_def deviceProperty_loop_CachedOnly deviceProperty_loop_FetchIfNeeded)
next
  case (Some iv)
  obtain i v where iv: "iv = (i, v)" by (cases iv)
  show ?thesis
  proof (cases "v = Invalid")
    case True
    with Some iv show ?thesis
      by (simp add: deviceProperty_def deviceProperty_loop_CachedOnly
          deviceProperty_loop_FetchIfNeeded find_property_cache_store)
  next
    case False
    with Some iv show ?thesis
      by (simp add: deviceProperty_def deviceProperty_loop_CachedOnly deviceProperty_loop_FetchIfNeeded)
  qed
qed

theorem lazy_resolution_idempotence_witness:
  "snd (deviceProperty sample_env sample_manager sr0 ''Label'' CachedOnly) = sample_manager \<and>
   fst (deviceProperty (sample_env\<lparr>reply_Get := \<lambda>u i n. VString ''x''\<rparr>) sample_manager sr0 ''Label''
          FetchIfNeeded) = VString ''x'' \<and>
   fst (deviceProperty sample_env
         (snd (deviceProperty (sample_env\<lparr>reply_Get := \<lambda>u i n. VString ''x''\<rparr>) sample_manager sr0
                 ''Label'' FetchIfNeeded)) sr0 ''Label'' CachedOnly)
     = VString ''x''"
  using lazy_resolution_idempotence [where e = sample_env and s = sample_manager and udi = sr0
          and name = "''Label''"]
        lazy_resolution_idempotence [where e' = sample_env
          and e = "sample_env\<lparr>reply_Get := \<lambda>u i n. VString ''x''\<rparr>"
          and s = sample_manager and udi = sr0 and name = "''Label''"]
  by (simp add: sample_defs deviceProperty_def cache_store_def)

section \<open>The signals of the service: the three slots of the manager\<close>

text \<open>The identifiers that a manager tracks are never empty and never jobs.\<close>

lemma apart_device_path:
  assumes "paths_apart e"
    and "startsWith udi (UD2_DBUS_PATH_BLOCK_DEVICES e) \<or> startsWith udi (UD2_DBUS_PATH_DRIVES e)"
  shows "udi \<noteq> [] \<and> \<not> startsWith udi (UD2_DBUS_PATH_JOBS e)"
proof
  show "udi \<noteq> []"
    using assms by (auto simp: paths_apart_def startsWith_def)
  show "\<not> startsWith udi (UD2_DBUS_PATH_JOBS e)"
  proof
    assume j: "startsWith udi (UD2_DBUS_PATH_JOBS e)"
    from assms(2) show False
    proof
      assume "startsWith udi (UD2_DBUS_PATH_BLOCK_DEVICES e)"
      with j have "prefix (UD2_DBUS_PATH_JOBS e) (UD2_DBUS_PATH_BLOCK_DEVICES e) \<or>
                   prefix (UD2_DBUS_PATH_BLOCK_DEVICES e) (UD2_DBUS_PATH_JOBS e)"
        unfolding startsWith_def by (meson prefix_same_cases)
      then show False using assms(1) by (simp add: paths_apart_def)
    next
      assume "startsWith udi (UD2_DBUS_PATH_DRIVES e)"
      with j have "prefix (UD2_DBUS_PATH_JOBS e) (UD2_DBUS_PATH_DRIVES e) \<or>
                   prefix (UD2_DBUS_PATH_DRIVES e) (UD2_DBUS_PATH_JOBS e)"
        unfolding startsWith_def by (meson prefix_same_cases)
      then show False using assms(1) by (simp add: paths_apart_def)
    qed
  qed
qed

lemma allDevices_items_keys:
  "qcontains u (allDevices_items e items c) \<Longrightarrow>
   qcontains u c \<or> startsWith u (UD2_DBUS_PATH_BLOCK_DEVICES e) \<or> startsWith u (UD2_DBUS_PATH_DRIVES e)"
proof (induction items arbitrary: c)
  case Nil
  then show ?case by simp
next
  case (Cons item items)
  obtain udi mapMap where item: "item = (udi, mapMap)" by (cases item)
  show ?case
  proof (cases "\<not> startsWith udi (UD2_DBUS_PATH_BLOCK_DEVICES e) \<and> \<not> startsWith udi (UD2_DBUS_PATH_DRIVES e)")
    case True
    then show ?thesis using Cons.prems Cons.IH [of c] by (simp add: item)
  next
    case False
    then have "qcontains u (allDevices_items e items
        (qinsert udi (map (\<lambda>(iface, m). (iface, sanitizeMap e m)) mapMap) c))"
      using Cons.prems by (auto simp: item)
    from Cons.IH [OF this] False show ?thesis by (auto simp: qcontains_qinsert)
  qed
qed

lemma qcontains_Nil [simp]: "\<not> qcontains k []"
  by (simp add: qcontains_def)

lemma tracked_ok_allDevices:
  assumes "paths_apart e" and "paths_of e' = paths_of e"
  shows "tracked_ok e (snd (Manager_allDevices e' s))"
proof -
  have pa: "paths_apart e'" and j: "UD2_DBUS_PATH_JOBS e' = UD2_DBUS_PATH_JOBS e"
    using assms by (simp_all add: paths_apart_def paths_of_def)
  show ?thesis
  proof (cases "reply_GetManagedObjects e'")
    case None
    then show ?thesis by (simp add: Manager_allDevices_def tracked_ok_def Let_def)
  next
    case (Some items)
    have "udi \<noteq> [] \<and> \<not> startsWith udi (UD2_DBUS_PATH_JOBS e)"
      if "qcontains udi (allDevices_items e' items [])" for udi
      using allDevices_items_keys [OF that] apart_device_path [OF pa, of udi] j by simp
    then show ?thesis using Some by (simp add: Manager_allDevices_def tracked_ok_def Let_def)
  qed
qed

lemma tracked_ok_deviceCache:
  assumes "paths_apart e" and "paths_of e' = paths_of e" and "tracked_ok e s"
  shows "tracked_ok e (snd (deviceCache e' s))"
  using assms tracked_ok_allDevices [OF assms(1,2), of s] by (simp add: deviceCache_def Let_def)

lemma tracked_ok_createDevice:
  assumes "paths_apart e" and "paths_of e' = paths_of e" and "tracked_ok e s"
  shows "tracked_ok e (snd (Manager_createDevice e' s udi))"
proof (cases "deviceCache e' s")
  case (Pair c s1)
  then have "tracked_ok e s1" using tracked_ok_deviceCache [OF assms] by simp
  then show ?thesis using Pair assms(3) by (simp add: Manager_createDevice_def)
qed

lemma find_property_tracked:
  "find_property name (qvalue [] udi c) = Some x \<Longrightarrow> qcontains udi c"
  by (cases "map_of c udi") (simp_all add: qvalue_def qcontains_def)

lemma qcontains_cache_store:
  "qcontains u (cache_store udi iface name v c) = (u = udi \<or> qcontains u c)"
  by (simp add: cache_store_def Let_def qcontains_qinsert)

lemma tracked_ok_deviceProperty:
  assumes "tracked_ok e s"
  shows "tracked_ok e (snd (deviceProperty e' s udi name fetchMode))"
proof (cases fetchMode)
  case CachedOnly
  then show ?thesis using assms by (simp add: deviceProperty_def deviceProperty_loop_CachedOnly)
next
  case FetchIfNeeded
  show ?thesis
  proof (cases "find_property name (qvalue [] udi (m_cache s))")
    case None
    then show ?thesis
      using assms FetchIfNeeded by (simp add: deviceProperty_def deviceProperty_loop_FetchIfNeeded)
  next
    case (Some iv)
    have t: "qcontains udi (m_cache s)" using find_property_tracked [OF Some] .
    obtain i v where iv: "iv = (i, v)" by (cases iv)
    show ?thesis
      using assms FetchIfNeeded Some t
      by (auto simp: iv deviceProperty_def deviceProperty_loop_FetchIfNeeded tracked_ok_def
          qcontains_cache_store)
  qed
qed

lemma isValidObjectPath_nonempty: "isValidObjectPath p \<Longrightarrow> p \<noteq> []"
  by (cases p) (simp_all add: isValidObjectPath_def)

lemma tracked_ok_slotInterfacesAdded:
  assumes "UD2_DBUS_PATH_JOBS e' = UD2_DBUS_PATH_JOBS e" and "tracked_ok e s" and "udi \<noteq> []"
  shows "tracked_ok e (slotInterfacesAdded e' s udi ifaces)"
  using assms
  by (auto simp: slotInterfacesAdded_def tracked_ok_def Let_def qcontains_qinsert split: prod.splits)

lemma tracked_ok_slotInterfacesRemoved:
  assumes "tracked_ok e s"
  shows "tracked_ok e (slotInterfacesRemoved e' s udi ifaces)"
  using assms
  by (auto simp: slotInterfacesRemoved_def tracked_ok_def Let_def qcontains_qinsert qcontains_qremove)

lemma m_cache_update_known:
  "\<exists>cached. m_cache (update_known e s udi iface changed invalidated) = qinsert udi cached (m_cache s)"
  by (auto simp: update_known_def Let_def split: prod.splits)

lemma tracked_ok_media_change:
  assumes "UD2_DBUS_PATH_JOBS e' = UD2_DBUS_PATH_JOBS e" and "tracked_ok e s" and "udi \<noteq> []"
    and "\<not> startsWith udi (UD2_DBUS_PATH_JOBS e')"
  shows "tracked_ok e (media_change e' s known udi iface changed)"
  using assms
  by (auto simp: media_change_def tracked_ok_def Let_def qcontains_qinsert qcontains_qremove)

lemma tracked_ok_slotPropertiesChanged:
  assumes j: "UD2_DBUS_PATH_JOBS e' = UD2_DBUS_PATH_JOBS e" and ok: "tracked_ok e s"
  shows "tracked_ok e (slotPropertiesChanged e' s msg)"
proof (cases "msg_path msg = [] \<or> \<not> startsWith (msg_path msg) (UD2_UDI_DISKS_PREFIX e') \<or>
              startsWith (msg_path msg) (UD2_DBUS_PATH_JOBS e')")
  case True
  then show ?thesis using ok by (auto simp: slotPropertiesChanged_def Let_def)
next
  case False
  let ?udi = "msg_path msg"
  have ne: "?udi \<noteq> []" and nj: "\<not> startsWith ?udi (UD2_DBUS_PATH_JOBS e')" using False by auto
  have uk: "tracked_ok e (update_known e' s ?udi iface changed invalidated)"
    if "qcontains ?udi (m_cache s)" for iface changed invalidated
  proof -
    obtain cached where c: "m_cache (update_known e' s ?udi iface changed invalidated)
        = qinsert ?udi cached (m_cache s)"
      using m_cache_update_known by blast
    show ?thesis using ok that by (auto simp: tracked_ok_def c qcontains_qinsert)
  qed
  show ?thesis
  proof (cases "msg_arguments msg")
    case Nil
    then show ?thesis using ok False by (simp add: slotPropertiesChanged_def Let_def)
  next
    case (Cons a0 r0)
    show ?thesis
    proof (cases r0)
      case Nil
      then show ?thesis using ok False Cons by (simp add: slotPropertiesChanged_def Let_def)
    next
      case r1: (Cons a1 r1)
      show ?thesis
      proof (cases r1)
        case Nil
        then show ?thesis using ok False Cons r1 by (simp add: slotPropertiesChanged_def Let_def)
      next
        case r2: (Cons a2 r2)
        show ?thesis
        proof (cases r2)
          case Nil
          have s1: "tracked_ok e (if qcontains ?udi (m_cache s)
                      then update_known e' s ?udi (qdbus_cast_QString a0) (qdbus_cast_QVariantMap a1)
                             (qdbus_cast_QStringList a2)
                      else s)"
            using uk ok by simp
          show ?thesis
            using False Cons r1 r2 Nil tracked_ok_media_change [OF j s1 ne nj]
            by (simp add: slotPropertiesChanged_def Let_def)
        next
          case (Cons a3 r3)
          then show ?thesis using ok False \<open>msg_arguments msg = a0 # r0\<close> r1 r2
            by (simp add: slotPropertiesChanged_def Let_def)
        qed
      qed
    qed
  qed
qed

lemma tracked_ok_step:
  assumes "paths_apart e" and "paths_of e' = paths_of e" and "tracked_ok e s"
  shows "tracked_ok e (manager_step e' a s)"
proof -
  have j: "UD2_DBUS_PATH_JOBS e' = UD2_DBUS_PATH_JOBS e" using assms(2) by (simp add: paths_of_def)
  show ?thesis
  proof (cases a)
    case CallAllDevices
    then show ?thesis using tracked_ok_allDevices [OF assms(1,2)] by simp
  next
    case CallDeviceCache
    then show ?thesis using tracked_ok_deviceCache [OF assms] by simp
  next
    case (CallCreateDevice udi)
    then show ?thesis using tracked_ok_createDevice [OF assms] by simp
  next
    case (CallDeviceProperty udi name mode)
    then show ?thesis using tracked_ok_deviceProperty [OF assms(3)] by simp
  next
    case (SignalInterfacesAdded p ifaces)
    then show ?thesis
      using tracked_ok_slotInterfacesAdded [OF j assms(3)] isValidObjectPath_nonempty assms(3) by simp
  next
    case (SignalInterfacesRemoved p ifaces)
    then show ?thesis using tracked_ok_slotInterfacesRemoved [OF assms(3)] assms(3) by simp
  next
    case (SignalPropertiesChanged msg)
    then show ?thesis using tracked_ok_slotPropertiesChanged [OF j assms(3)] by simp
  qed
qed

lemma tracked_ok_run:
  assumes "paths_apart e"
  shows "\<forall>(e', a) \<in> set steps. paths_of e' = paths_of e \<Longrightarrow> tracked_ok e s \<Longrightarrow>
         tracked_ok e (manager_run steps s)"
proof (induction steps arbitrary: s)
  case Nil
  then show ?case by simp
next
  case (Cons step steps)
  obtain e' a where step: "step = (e', a)" by (cases step)
  have "tracked_ok e (manager_step e' a s)"
    using tracked_ok_step [OF assms _ Cons.prems(2), of e' a] Cons.prems(1) by (simp add: step)
  then show ?case using Cons.IH Cons.prems(1) by (simp add: step)
qed

lemma tracked_ok_empty: "tracked_ok e empty_manager"
  by (simp add: tracked_ok_def empty_manager_def)

lemma slotInterfacesRemoved_not_ignored:
  assumes "qcontains udi (m_cache s)" and "udi \<noteq> []" and "\<not> startsWith udi (UD2_DBUS_PATH_JOBS e)"
  shows "(let old = qvalue [] udi (m_cache s);
              s' = slotInterfacesRemoved e s udi interfaces
          in (if fst ` set old \<subseteq> set interfaces
              then emitted s' = emitted s @ [DeviceRemoved udi] \<and> \<not> qcontains udi (m_cache s')
              else emitted s' = emitted s @ [DeviceRemoved udi, DeviceAdded udi] \<and>
                   qcontains udi (m_cache s') \<and>
                   (\<forall>i. map_of (qvalue [] udi (m_cache s')) i
                          = (if i \<in> set interfaces then None else map_of old i))) \<and>
             (\<forall>u. u \<noteq> udi \<longrightarrow> map_of (m_cache s') u = map_of (m_cache s) u) \<and>
             dbus_calls s' = dbus_calls s)"
  using assms
  by (simp add: slotInterfacesRemoved_def Let_def foldl_qremove qisEmpty_def filter_keys_empty
      qcontains_qinsert qcontains_qremove qvalue_qinsert_same map_of_filter_keys
      map_of_qinsert map_of_qremove)

lemma sample_paths_apart: "paths_apart sample_env"
  by (simp add: paths_apart_def sample_env_def)

lemma sample_run:
  "manager_run
     [(sample_env, SignalInterfacesAdded sr0
         [(Block, [(''Size'', VUInt64 512)]), (Filesystem, [(''Label'', Invalid)])])]
     empty_manager
   = sample_manager\<lparr>emitted := [DeviceAdded sr0]\<rparr>"
  by (simp add: isValidObjectPath_def slotInterfacesAdded_def sample_defs)

text \<open>
  Claim C2. Take any state of the manager that a run of its calls and of the signals of
  the service has led to from the empty cache, for a service whose jobs lie apart from its
  block devices and drives. For every tracked identifier, \<open>InterfacesRemoved\<close> removes
  each named interface from the snapshot. If no interface is left, the manager emits
  \<open>deviceRemoved\<close> once and deletes the snapshot entry; if some are left, it emits
  \<open>deviceRemoved\<close> and then \<open>deviceAdded\<close> for the identifier, nothing else, and the
  entry keeps exactly the interfaces that were not named. Other entries stay as they are
  and no call is made.
\<close>

theorem slotInterfacesRemoved_events:
  assumes apart: "paths_apart e"
    and envs: "\<forall>(e', a) \<in> set steps. paths_of e' = paths_of e"
    and run: "manager_run steps empty_manager = s"
    and tracked: "qcontains udi (m_cache s)"
  shows "(let old = qvalue [] udi (m_cache s);
              s' = slotInterfacesRemoved e s udi interfaces
          in (if fst ` set old \<subseteq> set interfaces
              then emitted s' = emitted s @ [DeviceRemoved udi] \<and> \<not> qcontains udi (m_cache s')
              else emitted s' = emitted s @ [DeviceRemoved udi, DeviceAdded udi] \<and>
                   qcontains udi (m_cache s') \<and>
                   (\<forall>i. map_of (qvalue [] udi (m_cache s')) i
                          = (if i \<in> set interfaces then None else map_of old i))) \<and>
             (\<forall>u. u \<noteq> udi \<longrightarrow> map_of (m_cache s') u = map_of (m_cache s) u) \<and>
             dbus_calls s' = dbus_calls s)"
proof -
  have "tracked_ok e s"
    using tracked_ok_run [OF apart envs tracked_ok_empty] run by simp
  then have "udi \<noteq> []" and "\<not> startsWith udi (UD2_DBUS_PATH_JOBS e)"
    using tracked by (simp_all add: tracked_ok_def)
  with tracked show ?thesis by (rule slotInterfacesRemoved_not_ignored)
qed

theorem slotInterfacesRemoved_events_witness:
  "paths_apart sample_env \<and>
   manager_run
     [(sample_env, SignalInterfacesAdded sr0
         [(Block, [(''Size'', VUInt64 512)]), (Filesystem, [(''Label'', Invalid)])])]
     empty_manager
   = sample_manager\<lparr>emitted := [DeviceAdded sr0]\<rparr> \<and>
   qcontains sr0 (m_cache (sample_manager\<lparr>emitted := [DeviceAdded sr0]\<rparr>)) \<and>
   emitted (slotInterfacesRemoved sample_env (sample_manager\<lparr>emitted := [DeviceAdded sr0]\<rparr>) sr0
              [Filesystem])
     = [DeviceAdded sr0, DeviceRemoved sr0, DeviceAdded sr0] \<and>
   map fst (qvalue [] sr0 (m_cache (slotInterfacesRemoved sample_env
              (sample_manager\<lparr>emitted := [DeviceAdded sr0]\<rparr>) sr0 [Filesystem])))
     = [Block] \<and>
   emitted (slotInterfacesRemoved sample_env (sample_manager\<lparr>emitted := [DeviceAdded sr0]\<rparr>) sr0
              [Block, Filesystem])
     = [DeviceAdded sr0, DeviceRemoved sr0] \<and>
   \<not> qcontains sr0 (m_cache (slotInterfacesRemoved sample_env
              (sample_manager\<lparr>emitted := [DeviceAdded sr0]\<rparr>) sr0 [Block, Filesystem]))"
proof -
  have envs: "\<forall>(e', a) \<in> set [(sample_env, SignalInterfacesAdded sr0
         [(Block, [(''Size'', VUInt64 512)]), (Filesystem, [(''Label'', Invalid)])])].
       paths_of e' = paths_of sample_env"
    by simp
  have tracked: "qcontains sr0 (m_cache (sample_manager\<lparr>emitted := [DeviceAdded sr0]\<rparr>))"
    by (simp add: sample_defs)
  note t1 = slotInterfacesRemoved_events [OF sample_paths_apart envs sample_run tracked, of "[Filesystem]"]
  note t2 = slotInterfacesRemoved_events [OF sample_paths_apart envs sample_run tracked, of "[Block, Filesystem]"]
  show ?thesis
    using sample_paths_apart sample_run tracked t1 t2
    by (simp add: sample_defs slotInterfacesRemoved_def)
qed

lemma map_of_merge_interfaces:
  "map_of (merge_interfaces e supplied cached) i =
     (case taken_interfaces e supplied i of
        Some props \<Rightarrow> Some (sanitizeMap e props)
      | None \<Rightarrow> map_of cached i)"
  by (induction supplied arbitrary: cached)
     (auto simp: taken_interfaces_def map_of_qinsert map_add_def split: option.splits)

lemma refetch_interfaces_calls:
  "snd (refetch_interfaces e udi ifaces (cached, calls)) = calls @ map (GetAll udi) ifaces"
  by (induction ifaces arbitrary: cached calls) (auto split: option.splits)

lemma refetch_interfaces_map:
  "map_of (fst (refetch_interfaces e udi ifaces (cached, calls))) i =
     (if i \<in> set ifaces
      then (case reply_GetAll e udi i of Some r \<Rightarrow> Some (sanitizeMap e r) | None \<Rightarrow> map_of cached i)
      else map_of cached i)"
  by (induction ifaces arbitrary: cached calls) (auto split: option.splits simp: map_of_qinsert)

text \<open>
  Claim C3, as amended. For an identifier that does not start with the jobs path (and a
  snapshot that, being a \<open>QMap\<close>, holds each interface once), \<open>InterfacesAdded\<close>
  leaves the identifier tracked; it merges into the snapshot the supplied interfaces
  whose name starts with the name of the UDisks2 service; it then asks the service for
  every interface that the snapshot held before, except the Block interface, and where
  the reply is valid replaces the cached properties of that interface by the reply, where
  it is not keeps what it has. It emits \<open>deviceAdded\<close> if and only if the identifier
  was not tracked before or the supplied map contains the Filesystem interface.
\<close>

theorem slotInterfacesAdded_merge:
  assumes nojob: "\<not> startsWith udi (UD2_DBUS_PATH_JOBS e)"
    and wf: "distinct (qkeys (qvalue [] udi (m_cache s)))"
  shows "(let old = qvalue [] udi (m_cache s);
              s' = slotInterfacesAdded e s udi supplied;
              new = qvalue [] udi (m_cache s');
              merged = (\<lambda>i. case taken_interfaces e supplied i of
                               Some props \<Rightarrow> Some (sanitizeMap e props)
                             | None \<Rightarrow> map_of old i)
          in qcontains udi (m_cache s') \<and>
             (\<forall>i. map_of new i =
                   (if map_of old i \<noteq> None \<and> i \<noteq> UD2_DBUS_INTERFACE_BLOCK e
                    then (case reply_GetAll e udi i of
                            Some reply \<Rightarrow> Some (sanitizeMap e reply)
                          | None \<Rightarrow> merged i)
                    else merged i)) \<and>
             dbus_calls s' = dbus_calls s @ map (GetAll udi) (remove1 (UD2_DBUS_INTERFACE_BLOCK e) (qkeys old)) \<and>
             emitted s' = (if \<not> qcontains udi (m_cache s) \<or> qcontains (UD2_DBUS_INTERFACE_FILESYSTEM e) supplied
                           then emitted s @ [DeviceAdded udi] else emitted s) \<and>
             (\<forall>u. u \<noteq> udi \<longrightarrow> map_of (m_cache s') u = map_of (m_cache s) u))"
proof -
  let ?old = "qvalue [] udi (m_cache s)"
  let ?olds = "remove1 (UD2_DBUS_INTERFACE_BLOCK e) (qkeys ?old)"
  let ?r = "refetch_interfaces e udi ?olds (merge_interfaces e supplied ?old, dbus_calls s)"
  have cached: "(if \<not> qcontains udi (m_cache s) then [] else ?old) = ?old"
    by (simp add: qvalue_not_contained)
  have r: "?r = (fst ?r, dbus_calls s @ map (GetAll udi) ?olds)"
    using refetch_interfaces_calls [of e udi ?olds "merge_interfaces e supplied ?old" "dbus_calls s"]
    by (metis prod.collapse)
  have mem: "(i \<in> set ?olds) = (map_of ?old i \<noteq> None \<and> i \<noteq> UD2_DBUS_INTERFACE_BLOCK e)" for i
    using wf by (simp add: set_remove1_distinct in_qkeys)
  have new: "map_of (fst ?r) i =
      (if map_of ?old i \<noteq> None \<and> i \<noteq> UD2_DBUS_INTERFACE_BLOCK e
       then (case reply_GetAll e udi i of
               Some reply \<Rightarrow> Some (sanitizeMap e reply)
             | None \<Rightarrow> (case taken_interfaces e supplied i of
                          Some props \<Rightarrow> Some (sanitizeMap e props) | None \<Rightarrow> map_of ?old i))
       else (case taken_interfaces e supplied i of
               Some props \<Rightarrow> Some (sanitizeMap e props) | None \<Rightarrow> map_of ?old i))" for i
    unfolding refetch_interfaces_map map_of_merge_interfaces mem by simp
  have s': "slotInterfacesAdded e s udi supplied =
      s\<lparr>m_cache := qinsert udi (fst ?r) (m_cache s),
        dbus_calls := dbus_calls s @ map (GetAll udi) ?olds,
        emitted := (if \<not> qcontains udi (m_cache s) \<or> qcontains (UD2_DBUS_INTERFACE_FILESYSTEM e) supplied
                    then emitted s @ [DeviceAdded udi] else emitted s)\<rparr>"
    using nojob unfolding slotInterfacesAdded_def Let_def cached
    by (subst r) simp
  show ?thesis
    unfolding Let_def s'
    using new by (simp add: qcontains_qinsert qvalue_qinsert_same map_of_qinsert)
qed

theorem slotInterfacesAdded_merge_witness:
  "\<not> startsWith sr0 (UD2_DBUS_PATH_JOBS sample_env) \<and>
   distinct (qkeys (qvalue [] sr0 (m_cache sample_manager))) \<and>
   emitted (slotInterfacesAdded sample_env sample_manager sr0 [(Filesystem, [(''Label'', VString ''data'')])])
     = [DeviceAdded sr0] \<and>
   dbus_calls (slotInterfacesAdded sample_env sample_manager sr0 [(Filesystem, [(''Label'', VString ''data'')])])
     = [GetAll sr0 Filesystem] \<and>
   map_of (qvalue [] sr0 (m_cache
       (slotInterfacesAdded sample_env sample_manager sr0 [(Filesystem, [(''Label'', VString ''data'')])])))
     Filesystem = Some [(''Label'', VString ''data'')]"
proof -
  have h1: "\<not> startsWith sr0 (UD2_DBUS_PATH_JOBS sample_env)" by (simp add: sample_defs)
  have h2: "distinct (qkeys (qvalue [] sr0 (m_cache sample_manager)))" by (simp add: sample_defs)
  show ?thesis
    using h1 h2 slotInterfacesAdded_merge [OF h1 h2, of "[(Filesystem, [(''Label'', VString ''data'')])]"]
    by (simp add: sample_defs slotInterfacesAdded_def)
qed

text \<open>
  The claim as it was stated fails in three places: a new identifier under the jobs path
  is ignored, with no signal; a supplied interface that is not one of the UDisks2
  service is not merged; and an interface whose re-fetch fails keeps its cached
  properties.
\<close>

theorem slotInterfacesAdded_merge_counterexample:
  "\<not> qcontains ''/org/freedesktop/UDisks2/jobs/1'' (m_cache empty_manager) \<and>
   emitted (slotInterfacesAdded sample_env empty_manager ''/org/freedesktop/UDisks2/jobs/1''
              [(''org.freedesktop.UDisks2.Job'', [])]) = [] \<and>
   m_cache (slotInterfacesAdded sample_env empty_manager sr0 [(''org.freedesktop.DBus.Properties'', [])])
     = [(sr0, [])] \<and>
   reply_GetAll sample_env sr0 Filesystem = None \<and>
   m_cache (slotInterfacesAdded sample_env sample_manager sr0 []) = m_cache sample_manager \<and>
   dbus_calls (slotInterfacesAdded sample_env sample_manager sr0 []) = [GetAll sr0 Filesystem]"
  by (simp add: sample_defs slotInterfacesAdded_def)







section \<open>The registry's slots for the signals of the backends\<close>

text \<open>The sample registry, step by step.\<close>

lemma sample_createDevice_sr0:
  "Manager_createDevice sample_env sample_manager sr0 = (Some (Device sr0), sample_manager)"
  by (simp add: Manager_createDevice_def deviceCache_def sample_defs)

lemma sample_createDevice_sdz:
  "Manager_createDevice sample_env sample_manager sdz = (None, sample_manager)"
  by (simp add: Manager_createDevice_def deviceCache_def sample_defs sdz_def)

lemma sample_prefix: "startsWith sr0 (UD2_UDI_DISKS_PREFIX sample_env)"
  "startsWith sdz (UD2_UDI_DISKS_PREFIX sample_env)"
  by (simp_all add: sample_defs sdz_def)

lemma sample_createBackendObject_sr0:
  "m_backends s = [Some sample_manager] \<Longrightarrow>
   createBackendObject (udisks_ops sample_env) s sr0 = (Some (Device sr0), s)"
  by (cases s) (simp add: createBackendObject_def udisks_ops_def sample_createDevice_sr0 sample_prefix)

lemma sample_createBackendObject_sdz:
  "m_backends s = [Some sample_manager] \<Longrightarrow>
   createBackendObject (udisks_ops sample_env) s sdz = (None, s)"
  by (cases s) (simp add: createBackendObject_def udisks_ops_def sample_createDevice_sdz sample_prefix)

lemma sample_names: "sr0 \<noteq> []" "sdz \<noteq> []" "sr0 \<noteq> sdz" "sdz \<noteq> sr0"
  by (simp_all add: sr0_def sdz_def)

lemma sample_lookup_sr0:
  "findRegisteredDevice (udisks_ops sample_env) (DeviceManagerPrivate [Some sample_manager]) sr0
     = (Some 1, sample_registry (Some (Device sr0)))"
  by (simp add: findRegisteredDevice_def sample_createBackendObject_sr0 sample_names
      DeviceManagerPrivate_def sample_registry_def)

lemma sample_lookup_sdz:
  "findRegisteredDevice (udisks_ops sample_env) (DeviceManagerPrivate [Some sample_manager]) sdz
     = (Some 1, (DeviceManagerPrivate [Some sample_manager])
          \<lparr>objects := [0 \<mapsto> \<lparr>m_udi = [], m_backendObject = None\<rparr>,
                        1 \<mapsto> \<lparr>m_udi = sdz, m_backendObject = None\<rparr>],
            next_object := 2, m_devicesMap := [sdz \<mapsto> 1], m_reverseMap := [1 \<mapsto> sdz]\<rparr>)"
  by (simp add: findRegisteredDevice_def sample_createBackendObject_sdz sample_names
      DeviceManagerPrivate_def)

lemma sample_lookup_again:
  "findRegisteredDevice (udisks_ops sample_env) (sample_registry ob) sr0 = (Some 1, sample_registry ob)"
  by (simp add: findRegisteredDevice_def sample_names sample_registry_def QPointer_data_def)

lemma sample_registry_backends: "m_backends (sample_registry ob) = [Some sample_manager]"
  by (simp add: sample_registry_def)



lemma sample_notified: "notified (sample_registry ob) = []"
  by (simp add: sample_registry_def)

lemma sample_live_handle: "live_handle (sample_registry ob) sr0 = Some (Suc 0)"
  "live_handle (sample_registry ob) sdz = None"
  by (simp_all add: live_handle_def sample_registry_def QPointer_data_def sample_names)

lemma sample_backendObject: "backendObject (sample_registry ob) (Suc 0) = ob"
  by (simp add: backendObject_def sample_registry_def)

lemma sample_setBackendObject: "setBackendObject (sample_registry ob) (Suc 0) ob' = sample_registry ob'"
  by (simp add: setBackendObject_def sample_registry_def)


lemma sample_k_deviceAdded:
  "k_deviceAdded True (udisks_ops sample_env) (sample_registry None) sr0
     = Inr ((sample_registry (Some (Device sr0)))\<lparr>notified := [DeviceAdded sr0]\<rparr>)"
  "k_deviceAdded True (udisks_ops sample_env) (sample_registry None) sdz
     = Inr ((sample_registry None)\<lparr>notified := [DeviceAdded sdz]\<rparr>)"
  unfolding k_deviceAdded_def live_handle_def [symmetric]
  by (simp_all add: Let_def sample_live_handle sample_backendObject sample_setBackendObject
      sample_createBackendObject_sr0 sample_registry_backends sample_notified)

lemma sample_routing_backend:
  "routing_backend (udisks_ops sample_env) [Some sample_manager] sr0 = Some sample_manager"
  by (simp add: routing_backend_def udisks_ops_def sample_prefix List.map_filter_simps)

lemma createBackendObject_loop_routing:
  "fst (createBackendObject_loop ops udi backends) =
     (case routing_backend ops backends udi of
        None \<Rightarrow> None
      | Some b \<Rightarrow> qobject_cast_Device (fst (createDevice ops b udi)))"
  by (induction ops udi backends rule: createBackendObject_loop.induct)
     (auto simp: routing_backend_def List.map_filter_simps split: prod.splits)

lemma createBackendObject_routing:
  "fst (createBackendObject ops s udi) =
     (case routing_backend ops (m_backends s) udi of
        None \<Rightarrow> None
      | Some b \<Rightarrow> qobject_cast_Device (fst (createDevice ops b udi)))"
  using createBackendObject_loop_routing [of ops udi "m_backends s"]
  by (auto simp: createBackendObject_def split: prod.splits)

lemma createBackendObject_state:
  "\<exists>bs. snd (createBackendObject ops s udi) = s\<lparr>m_backends := bs\<rparr>"
  by (auto simp: createBackendObject_def split: prod.splits)

text \<open>
  Claim C7. When a backend signals that a device was added: if the registry has a live
  handle for the identifier and its backend object is null, the registry asks the backend
  that the identifier is routed to for a new backend object and stores it in the handle;
  the slot asserts that the object is not null, so with assertions compiled in it stops
  there when it is, and otherwise goes on. In every case in which the slot goes on, with
  a live handle or without one, it emits \<open>deviceAdded\<close>; the handle stays registered.
\<close>

theorem k_deviceAdded_revalidates:
  "(case live_handle s udi of
      None \<Rightarrow> k_deviceAdded dbg ops s udi = Inr (s\<lparr>notified := notified s @ [DeviceAdded udi]\<rparr>)
    | Some dev \<Rightarrow>
        if backendObject s dev \<noteq> None
        then k_deviceAdded dbg ops s udi = Inr (s\<lparr>notified := notified s @ [DeviceAdded udi]\<rparr>)
        else
          (let iface = (case routing_backend ops (m_backends s) udi of
                          None \<Rightarrow> None
                        | Some b \<Rightarrow> qobject_cast_Device (fst (createDevice ops b udi)))
           in if dbg \<and> iface = None then k_deviceAdded dbg ops s udi = Inl AssertionFailed
              else (\<exists>s'. k_deviceAdded dbg ops s udi = Inr s' \<and>
                      notified s' = notified s @ [DeviceAdded udi] \<and>
                      backendObject s' dev = iface \<and>
                      (dbg \<longrightarrow> backendObject s' dev \<noteq> None) \<and>
                      live_handle s' udi = Some dev \<and>
                      m_devicesMap s' = m_devicesMap s \<and>
                      dom (objects s') = dom (objects s) \<and>
                      (\<forall>a. a \<noteq> dev \<longrightarrow> objects s' a = objects s a))))"
proof (cases "live_handle s udi")
  case None
  then show ?thesis by (simp add: k_deviceAdded_def live_handle_def)
next
  case (Some dev)
  obtain d where d: "objects s dev = Some d"
    using Some by (auto simp: live_handle_def QPointer_data_def split: option.splits)
  obtain bs where bs: "snd (createBackendObject ops s udi) = s\<lparr>m_backends := bs\<rparr>"
    using createBackendObject_state by blast
  have cbo: "createBackendObject ops s udi = (fst (createBackendObject ops s udi), s\<lparr>m_backends := bs\<rparr>)"
    using bs by (metis prod.collapse)
  show ?thesis
  proof (cases "backendObject s dev \<noteq> None")
    case True
    with Some show ?thesis by (auto simp: k_deviceAdded_def live_handle_def)
  next
    case False
    have kd: "k_deviceAdded dbg ops s udi =
        (let iface = fst (createBackendObject ops s udi);
             s2 = setBackendObject (s\<lparr>m_backends := bs\<rparr>) dev iface
         in if dbg \<and> \<not> (backendObject s2 dev \<noteq> None) then Inl AssertionFailed
            else Inr (s2\<lparr>notified := notified s2 @ [DeviceAdded udi]\<rparr>))"
      using Some False unfolding k_deviceAdded_def live_handle_def [symmetric]
      by (subst cbo) (simp add: Let_def)
    show ?thesis
      using Some False d unfolding kd createBackendObject_routing [symmetric]
      by (auto simp: Let_def live_handle_def QPointer_data_def backendObject_def
          setBackendObject_def split: option.splits)
  qed
qed

theorem k_deviceAdded_revalidates_witness:
  "live_handle (sample_registry None) sr0 = Some 1 \<and>
   backendObject (sample_registry None) 1 = None \<and>
   routing_backend (udisks_ops sample_env) (m_backends (sample_registry None)) sr0 = Some sample_manager \<and>
   k_deviceAdded True (udisks_ops sample_env) (sample_registry None) sr0
     = Inr ((sample_registry (Some (Device sr0)))\<lparr>notified := [DeviceAdded sr0]\<rparr>) \<and>
   live_handle (sample_registry None) sdz = None \<and>
   k_deviceAdded True (udisks_ops sample_env) (sample_registry None) sdz
     = Inr ((sample_registry None)\<lparr>notified := [DeviceAdded sdz]\<rparr>)"
  using k_deviceAdded_revalidates [where s = "sample_registry None" and udi = sr0 and dbg = True
      and ops = "udisks_ops sample_env"]
    k_deviceAdded_revalidates [where s = "sample_registry None" and udi = sdz and dbg = True
      and ops = "udisks_ops sample_env"]
  by (simp add: sample_live_handle sample_backendObject sample_k_deviceAdded
      sample_routing_backend sample_registry_backends)



section \<open>Queries\<close>

text \<open>
  Claim C9. For a predicate string that \<open>Predicate::fromString\<close> does not turn into a
  valid predicate, the query returns the empty list; it raises nothing, looks no device
  up and leaves the registry as it was.
\<close>

theorem listFromQuery_invalid_predicate:
  "\<not> predicate_isValid pops (fromString pops predicate) \<Longrightarrow>
   listFromQuery_QString ops qops pops s predicate parentUdi = ([], s)"
  by (simp add: listFromQuery_QString_def)

theorem listFromQuery_invalid_predicate_witness:
  "\<not> predicate_isValid sample_predicate_ops (fromString sample_predicate_ops ''(Block.Size =='') \<and>
   listFromQuery_QString (udisks_ops sample_env) sample_query_ops sample_predicate_ops
      (sample_registry None) ''(Block.Size =='' [] = ([], sample_registry None)"
proof -
  have h: "\<not> predicate_isValid sample_predicate_ops (fromString sample_predicate_ops ''(Block.Size =='')"
    by (simp add: sample_predicate_ops_def)
  show ?thesis
    using h listFromQuery_invalid_predicate [OF h] by simp
qed

section \<open>The identity map of the registry\<close>

lemma registry_okD:
  assumes "registry_ok s"
  shows "m_devicesMap s udi = Some a \<Longrightarrow> udi \<noteq> []"
    and "m_devicesMap s udi = Some a \<Longrightarrow> a \<noteq> m_nullDevice s"
    and "m_devicesMap s udi = Some a \<Longrightarrow> map_option m_udi (objects s a) = Some udi"
    and "m_devicesMap s udi = Some a \<Longrightarrow> m_reverseMap s a = Some udi"
    and "m_reverseMap s a = Some udi \<Longrightarrow> m_devicesMap s udi = Some a"
    and "objects s a = Some d \<Longrightarrow> a < next_object s"
    and "map_option m_udi (objects s (m_nullDevice s)) = Some []"
    and "objects s a = Some d \<Longrightarrow> a \<noteq> m_nullDevice s \<Longrightarrow> m_devicesMap s (m_udi d) = Some a"
  using assms unfolding registry_ok_def by blast+

lemma registry_ok_init: "registry_ok (DeviceManagerPrivate backends)"
  by (simp add: registry_ok_def DeviceManagerPrivate_def)

lemma registry_ok_m_backends [simp]: "registry_ok (s\<lparr>m_backends := bs\<rparr>) = registry_ok s"
  by (simp add: registry_ok_def)

lemma registry_ok_notified [simp]: "registry_ok (s\<lparr>notified := n\<rparr>) = registry_ok s"
  by (simp add: registry_ok_def)


lemma registry_ok_setBackendObject:
  assumes "registry_ok s"
  shows "registry_ok (setBackendObject s dev ob)"
proof (cases "objects s dev")
  case None
  then show ?thesis using assms by (simp add: setBackendObject_def)
next
  case (Some d)
  have eq: "setBackendObject s dev ob = s\<lparr>objects := (objects s)(dev \<mapsto> d\<lparr>m_backendObject := ob\<rparr>)\<rparr>"
    using Some by (simp add: setBackendObject_def)
  have udi: "map_option m_udi (((objects s)(dev \<mapsto> d\<lparr>m_backendObject := ob\<rparr>)) a)
               = map_option m_udi (objects s a)" for a
    using Some by simp
  have dom: "(((objects s)(dev \<mapsto> d\<lparr>m_backendObject := ob\<rparr>)) a \<noteq> None) = (objects s a \<noteq> None)" for a
    using Some by simp
  have c5: "m_devicesMap s (m_udi d') = Some a"
    if "((objects s)(dev \<mapsto> d\<lparr>m_backendObject := ob\<rparr>)) a = Some d'" "a \<noteq> m_nullDevice s" for a d'
  proof (cases "a = dev")
    case True
    then have "m_udi d' = m_udi d" using that by auto
    then show ?thesis using registry_okD(8) [OF assms Some] True that by simp
  next
    case False
    then show ?thesis using registry_okD(8) [OF assms] that by simp
  qed
  let ?s' = "s\<lparr>objects := (objects s)(dev \<mapsto> d\<lparr>m_backendObject := ob\<rparr>)\<rparr>"
  have sel: "m_devicesMap ?s' = m_devicesMap s" "m_reverseMap ?s' = m_reverseMap s"
    "objects ?s' = (objects s)(dev \<mapsto> d\<lparr>m_backendObject := ob\<rparr>)"
    "next_object ?s' = next_object s" "m_nullDevice ?s' = m_nullDevice s"
    by simp_all
  show ?thesis
    unfolding eq registry_ok_def sel udi dom
    using assms c5 unfolding registry_ok_def by blast
qed

lemma registry_ok_findRegisteredDevice:
  assumes ok: "registry_ok s"
  shows "registry_ok (snd (findRegisteredDevice ops s udi))"
proof (cases "udi = [] \<or> m_devicesMap s udi \<noteq> None")
  case True
  then show ?thesis using ok by (auto simp: findRegisteredDevice_def)
next
  case False
  obtain bs where bs: "snd (createBackendObject ops s udi) = s\<lparr>m_backends := bs\<rparr>"
    using createBackendObject_state by blast
  have cbo: "createBackendObject ops s udi = (fst (createBackendObject ops s udi), s\<lparr>m_backends := bs\<rparr>)"
    using bs by (metis prod.collapse)
  let ?a = "next_object s"
  let ?d = "\<lparr>m_udi = udi, m_backendObject = fst (createBackendObject ops s udi)\<rparr>"
  have fresh: "objects s ?a = None"
    using registry_okD(6) [OF ok, of ?a] by (cases "objects s ?a") auto
  have notnull: "?a \<noteq> m_nullDevice s"
    using registry_okD(7) [OF ok] fresh by auto
  have norev: "m_reverseMap s ?a = None"
  proof (cases "m_reverseMap s ?a")
    case None then show ?thesis .
  next
    case (Some u)
    from registry_okD(3) [OF ok registry_okD(5) [OF ok Some]] fresh show ?thesis by simp
  qed
  have nomap: "m_devicesMap s u \<noteq> Some ?a" for u
    using registry_okD(3) [OF ok, of u ?a] fresh by auto
  have fr: "snd (findRegisteredDevice ops s udi) =
      s\<lparr>m_backends := bs,
        objects := (objects s)(?a \<mapsto> ?d),
        next_object := Suc ?a,
        m_devicesMap := (m_devicesMap s)(udi \<mapsto> ?a),
        m_reverseMap := (m_reverseMap s)(?a \<mapsto> udi)\<rparr>"
    using False unfolding findRegisteredDevice_def by (subst cbo) (simp add: Let_def)
  have p1: "u \<noteq> [] \<and> a \<noteq> m_nullDevice s \<and>
            map_option m_udi (((objects s)(?a \<mapsto> ?d)) a) = Some u \<and>
            ((m_reverseMap s)(?a \<mapsto> udi)) a = Some u"
    if "((m_devicesMap s)(udi \<mapsto> ?a)) u = Some a" for u a
  proof (cases "u = udi")
    case True
    then show ?thesis using that False notnull by simp
  next
    case f: False
    then have m: "m_devicesMap s u = Some a" using that by simp
    then have "a \<noteq> ?a" using nomap by auto
    then show ?thesis
      using registry_okD(1-4) [OF ok m] by simp
  qed
  have p2: "((m_devicesMap s)(udi \<mapsto> ?a)) u = Some a"
    if "((m_reverseMap s)(?a \<mapsto> udi)) a = Some u" for u a
  proof (cases "a = ?a")
    case True
    then show ?thesis using that by simp
  next
    case f: False
    then have r: "m_reverseMap s a = Some u" using that by simp
    have "u \<noteq> udi" using registry_okD(5) [OF ok r] False by auto
    then show ?thesis using registry_okD(5) [OF ok r] by simp
  qed
  have p3: "a < Suc ?a" if "((objects s)(?a \<mapsto> ?d)) a \<noteq> None" for a
    using that registry_okD(6) [OF ok, of a] by (cases "a = ?a") (auto simp: less_Suc_eq)
  have p4: "map_option m_udi (((objects s)(?a \<mapsto> ?d)) (m_nullDevice s)) = Some []"
    using registry_okD(7) [OF ok] notnull by simp
  have p5: "((m_devicesMap s)(udi \<mapsto> ?a)) (m_udi d) = Some a"
    if "((objects s)(?a \<mapsto> ?d)) a = Some d" "a \<noteq> m_nullDevice s" for a d
  proof (cases "a = ?a")
    case True
    then show ?thesis using that by auto
  next
    case f: False
    then have o: "objects s a = Some d" using that by simp
    have m: "m_devicesMap s (m_udi d) = Some a" using registry_okD(8) [OF ok o that(2)] .
    then have "m_udi d \<noteq> udi" using False by auto
    then show ?thesis using m by simp
  qed
  let ?s' = "s\<lparr>m_backends := bs,
        objects := (objects s)(?a \<mapsto> ?d),
        next_object := Suc ?a,
        m_devicesMap := (m_devicesMap s)(udi \<mapsto> ?a),
        m_reverseMap := (m_reverseMap s)(?a \<mapsto> udi)\<rparr>"
  have sel: "m_devicesMap ?s' = (m_devicesMap s)(udi \<mapsto> ?a)"
    "m_reverseMap ?s' = (m_reverseMap s)(?a \<mapsto> udi)"
    "objects ?s' = (objects s)(?a \<mapsto> ?d)"
    "next_object ?s' = Suc ?a" "m_nullDevice ?s' = m_nullDevice s"
    by simp_all
  show ?thesis
    unfolding fr registry_ok_def sel
    using p1 p2 p3 p4 p5 by blast
qed


lemma registry_ok_k_deviceAdded:
  assumes "registry_ok s" and "k_deviceAdded dbg ops s udi = Inr s'"
  shows "registry_ok s'"
proof -
  obtain bs where bs: "snd (createBackendObject ops s udi) = s\<lparr>m_backends := bs\<rparr>"
    using createBackendObject_state by blast
  have cbo: "createBackendObject ops s udi = (fst (createBackendObject ops s udi), s\<lparr>m_backends := bs\<rparr>)"
    using bs by (metis prod.collapse)
  obtain iface where cbo': "createBackendObject ops s udi = (iface, s\<lparr>m_backends := bs\<rparr>)"
    using cbo by blast
  have "registry_ok (setBackendObject (s\<lparr>m_backends := bs\<rparr>) dev ob)" for dev ob
    using assms(1) by (simp add: registry_ok_setBackendObject)
  then show ?thesis
    using assms unfolding k_deviceAdded_def cbo'
    by (auto simp: Let_def split: option.splits if_splits)
qed

lemma registry_ok_k_deviceRemoved:
  assumes "registry_ok s" and "k_deviceRemoved dbg s udi = Inr s'"
  shows "registry_ok s'"
  using assms registry_ok_setBackendObject [OF assms(1)]
  unfolding k_deviceRemoved_def
  by (auto simp: Let_def split: option.splits if_splits)

lemma registry_ok_delete_DevicePrivate:
  assumes ok: "registry_ok s" and nn: "a \<noteq> m_nullDevice s"
  shows "registry_ok (delete_DevicePrivate s a)"
proof (cases "m_reverseMap s a")
  case None
  let ?s' = "s\<lparr>objects := (objects s)(a := None), m_reverseMap := (m_reverseMap s)(a := None)\<rparr>"
  have eq: "delete_DevicePrivate s a = ?s'"
    using None by (simp add: delete_DevicePrivate_def k_destroyed_def Let_def)
  have sel: "m_devicesMap ?s' = m_devicesMap s" "m_reverseMap ?s' = (m_reverseMap s)(a := None)"
    "objects ?s' = (objects s)(a := None)"
    "next_object ?s' = next_object s" "m_nullDevice ?s' = m_nullDevice s"
    by simp_all
  have nomap: "m_devicesMap s u \<noteq> Some a" for u
    using registry_okD(4) [OF ok, of u a] None by auto
  have p1: "u \<noteq> [] \<and> b \<noteq> m_nullDevice s \<and> map_option m_udi (((objects s)(a := None)) b) = Some u \<and>
            ((m_reverseMap s)(a := None)) b = Some u" if "m_devicesMap s u = Some b" for u b
    using registry_okD(1-4) [OF ok that] nomap [of u] that by auto
  have p2: "m_devicesMap s u = Some b" if "((m_reverseMap s)(a := None)) b = Some u" for u b
    using that registry_okD(5) [OF ok, of b u] by (cases "b = a") auto
  have p3: "b < next_object s" if "((objects s)(a := None)) b \<noteq> None" for b
    using that registry_okD(6) [OF ok, of b] by (cases "b = a") auto
  have p4: "map_option m_udi (((objects s)(a := None)) (m_nullDevice s)) = Some []"
    using registry_okD(7) [OF ok] nn by simp
  have p5: "m_devicesMap s (m_udi d) = Some b"
    if "((objects s)(a := None)) b = Some d" "b \<noteq> m_nullDevice s" for b d
    using that registry_okD(8) [OF ok, of b d] by (cases "b = a") auto
  show ?thesis unfolding eq registry_ok_def sel using p1 p2 p3 p4 p5 by blast
next
  case (Some udi)
  have m: "m_devicesMap s udi = Some a" using registry_okD(5) [OF ok Some] .
  have ne: "udi \<noteq> []" using registry_okD(1) [OF ok m] .
  let ?s' = "s\<lparr>objects := (objects s)(a := None), m_reverseMap := (m_reverseMap s)(a := None),
               m_devicesMap := (m_devicesMap s)(udi := None)\<rparr>"
  have eq: "delete_DevicePrivate s a = ?s'"
    using Some ne by (simp add: delete_DevicePrivate_def k_destroyed_def Let_def)
  have sel: "m_devicesMap ?s' = (m_devicesMap s)(udi := None)"
    "m_reverseMap ?s' = (m_reverseMap s)(a := None)"
    "objects ?s' = (objects s)(a := None)"
    "next_object ?s' = next_object s" "m_nullDevice ?s' = m_nullDevice s"
    by simp_all
  have only: "u = udi" if "m_devicesMap s u = Some a" for u
    using registry_okD(4) [OF ok that] Some by simp
  have p1: "u \<noteq> [] \<and> b \<noteq> m_nullDevice s \<and> map_option m_udi (((objects s)(a := None)) b) = Some u \<and>
            ((m_reverseMap s)(a := None)) b = Some u" if "((m_devicesMap s)(udi := None)) u = Some b" for u b
  proof -
    have u: "u \<noteq> udi" and mb: "m_devicesMap s u = Some b" using that by (auto split: if_splits)
    have "b \<noteq> a" using only [of u] mb u by auto
    then show ?thesis using registry_okD(1-4) [OF ok mb] by simp
  qed
  have p2: "((m_devicesMap s)(udi := None)) u = Some b" if "((m_reverseMap s)(a := None)) b = Some u" for u b
  proof -
    have b: "b \<noteq> a" and r: "m_reverseMap s b = Some u" using that by (auto split: if_splits)
    have mb: "m_devicesMap s u = Some b" using registry_okD(5) [OF ok r] .
    have "u \<noteq> udi" using mb m b by auto
    then show ?thesis using mb by simp
  qed
  have p3: "b < next_object s" if "((objects s)(a := None)) b \<noteq> None" for b
    using that registry_okD(6) [OF ok, of b] by (cases "b = a") auto
  have p4: "map_option m_udi (((objects s)(a := None)) (m_nullDevice s)) = Some []"
    using registry_okD(7) [OF ok] nn by simp
  have p5: "((m_devicesMap s)(udi := None)) (m_udi d) = Some b"
    if "((objects s)(a := None)) b = Some d" "b \<noteq> m_nullDevice s" for b d
  proof -
    have b: "b \<noteq> a" and o: "objects s b = Some d" using that by (auto split: if_splits)
    have mb: "m_devicesMap s (m_udi d) = Some b" using registry_okD(8) [OF ok o that(2)] .
    have "m_udi d \<noteq> udi" using mb m b by auto
    then show ?thesis using mb by simp
  qed
  show ?thesis unfolding eq registry_ok_def sel using p1 p2 p3 p4 p5 by blast
qed

lemma registry_ok_step:
  assumes "registry_ok s" and "registry_step dbg ops act s = Inr s'"
  shows "registry_ok s'"
proof (cases act)
  case (Lookup udi)
  then show ?thesis using assms registry_ok_findRegisteredDevice [OF assms(1)] by auto
next
  case (BackendAdded udi)
  then show ?thesis using assms registry_ok_k_deviceAdded by auto
next
  case (BackendRemoved udi)
  then show ?thesis using assms registry_ok_k_deviceRemoved by auto
next
  case (Delete a)
  then show ?thesis using assms registry_ok_delete_DevicePrivate [OF assms(1)] by auto
qed

lemma registry_ok_run:
  "registry_ok s \<Longrightarrow> registry_run dbg ops acts s = Inr s' \<Longrightarrow> registry_ok s'"
proof (induction acts arbitrary: s)
  case Nil
  then show ?case by simp
next
  case (Cons act acts)
  then show ?case
    by (cases "registry_step dbg ops act s") (auto dest: registry_ok_step)
qed

lemma registry_ok_unique:
  assumes ok: "registry_ok s" and a: "objects s a = Some d" and a': "objects s a' = Some d'"
    and eq: "m_udi d = m_udi d'"
  shows "a = a'"
proof (cases "a = m_nullDevice s")
  case True
  have e: "m_udi d = []" using registry_okD(7) [OF ok] a True by simp
  show ?thesis
  proof (rule ccontr)
    assume "a \<noteq> a'"
    then have "a' \<noteq> m_nullDevice s" using True by simp
    from registry_okD(8) [OF ok a' this] registry_okD(1) [OF ok] e eq show False by metis
  qed
next
  case False
  have m: "m_devicesMap s (m_udi d) = Some a" using registry_okD(8) [OF ok a False] .
  have ne: "m_udi d \<noteq> []" using registry_okD(1) [OF ok m] .
  have "a' \<noteq> m_nullDevice s"
  proof
    assume "a' = m_nullDevice s"
    then have "m_udi d' = []" using registry_okD(7) [OF ok] a' by simp
    then show False using ne eq by simp
  qed
  from registry_okD(8) [OF ok a' this] m eq show ?thesis by simp
qed

text \<open>
  Claim C1, as amended. Take any registry that a run of lookups, backend signals and
  deletions of handles has led to, and any identifier that is not empty. If the identity
  map has a handle for it, \<open>findRegisteredDevice\<close> returns that handle, which is alive
  and has this identifier, and changes nothing. Otherwise it creates a handle at an
  address that was not in use, with the backend object that the backend routed to by
  prefix returns, null or not, and enters it in the identity map; it emits nothing. In
  both cases two live handles with one identifier are the same handle afterwards.
\<close>

theorem findRegisteredDevice_identity:
  assumes run: "registry_run dbg ops acts (DeviceManagerPrivate backends) = Inr s"
    and udi: "udi \<noteq> []"
  shows "(case m_devicesMap s udi of
            Some a \<Rightarrow>
              findRegisteredDevice ops s udi = (Some a, s) \<and>
              map_option m_udi (objects s a) = Some udi
          | None \<Rightarrow>
              (let a = next_object s;
                   s' = snd (findRegisteredDevice ops s udi);
                   iface = (case routing_backend ops (m_backends s) udi of
                              None \<Rightarrow> None
                            | Some b \<Rightarrow> qobject_cast_Device (fst (createDevice ops b udi)))
               in fst (findRegisteredDevice ops s udi) = Some a \<and>
                  objects s a = None \<and>
                  objects s' = (objects s)(a \<mapsto> \<lparr>m_udi = udi, m_backendObject = iface\<rparr>) \<and>
                  m_devicesMap s' = (m_devicesMap s)(udi \<mapsto> a) \<and>
                  notified s' = notified s)) \<and>
         (\<forall>a a' d d'.
             objects (snd (findRegisteredDevice ops s udi)) a = Some d \<and>
             objects (snd (findRegisteredDevice ops s udi)) a' = Some d' \<and>
             m_udi d = m_udi d' \<longrightarrow> a = a')"
proof -
  have ok: "registry_ok s" using registry_ok_run [OF registry_ok_init run] .
  have ok': "registry_ok (snd (findRegisteredDevice ops s udi))"
    using registry_ok_findRegisteredDevice [OF ok] .
  have uniq: "\<forall>a a' d d'.
             objects (snd (findRegisteredDevice ops s udi)) a = Some d \<and>
             objects (snd (findRegisteredDevice ops s udi)) a' = Some d' \<and>
             m_udi d = m_udi d' \<longrightarrow> a = a'"
    using registry_ok_unique [OF ok'] by blast
  have first: "(case m_devicesMap s udi of
            Some a \<Rightarrow>
              findRegisteredDevice ops s udi = (Some a, s) \<and>
              map_option m_udi (objects s a) = Some udi
          | None \<Rightarrow>
              (let a = next_object s;
                   s' = snd (findRegisteredDevice ops s udi);
                   iface = (case routing_backend ops (m_backends s) udi of
                              None \<Rightarrow> None
                            | Some b \<Rightarrow> qobject_cast_Device (fst (createDevice ops b udi)))
               in fst (findRegisteredDevice ops s udi) = Some a \<and>
                  objects s a = None \<and>
                  objects s' = (objects s)(a \<mapsto> \<lparr>m_udi = udi, m_backendObject = iface\<rparr>) \<and>
                  m_devicesMap s' = (m_devicesMap s)(udi \<mapsto> a) \<and>
                  notified s' = notified s))"
  proof (cases "m_devicesMap s udi")
    case (Some a)
    have "map_option m_udi (objects s a) = Some udi" using registry_okD(3) [OF ok Some] .
    then show ?thesis using Some udi
      by (auto simp: findRegisteredDevice_def QPointer_data_def split: option.splits)
  next
    case None
    obtain bs where bs: "snd (createBackendObject ops s udi) = s\<lparr>m_backends := bs\<rparr>"
      using createBackendObject_state by blast
    obtain iface where cbo: "createBackendObject ops s udi = (iface, s\<lparr>m_backends := bs\<rparr>)"
      using bs by (metis prod.collapse)
    have iface: "iface = (case routing_backend ops (m_backends s) udi of
                              None \<Rightarrow> None
                            | Some b \<Rightarrow> qobject_cast_Device (fst (createDevice ops b udi)))"
      using createBackendObject_routing [of ops s udi] cbo by simp
    have fresh: "objects s (next_object s) = None"
      using registry_okD(6) [OF ok, of "next_object s"] by (cases "objects s (next_object s)") auto
    show ?thesis
      using None udi fresh unfolding iface [symmetric]
      by (simp add: findRegisteredDevice_def cbo Let_def)
  qed
  show ?thesis using first uniq by blast
qed

theorem findRegisteredDevice_identity_witness:
  "registry_run True (udisks_ops sample_env) [Lookup sr0] (DeviceManagerPrivate [Some sample_manager])
     = Inr (sample_registry (Some (Device sr0))) \<and>
   sr0 \<noteq> [] \<and>
   m_devicesMap (sample_registry (Some (Device sr0))) sr0 = Some 1 \<and>
   findRegisteredDevice (udisks_ops sample_env) (sample_registry (Some (Device sr0))) sr0
     = (Some 1, sample_registry (Some (Device sr0))) \<and>
   registry_run True (udisks_ops sample_env) [] (DeviceManagerPrivate [Some sample_manager])
     = Inr (DeviceManagerPrivate [Some sample_manager]) \<and>
   sdz \<noteq> [] \<and>
   m_devicesMap (DeviceManagerPrivate [Some sample_manager]) sdz = None \<and>
   fst (findRegisteredDevice (udisks_ops sample_env) (DeviceManagerPrivate [Some sample_manager]) sdz) = Some 1 \<and>
   objects (snd (findRegisteredDevice (udisks_ops sample_env) (DeviceManagerPrivate [Some sample_manager]) sdz)) 1
     = Some \<lparr>m_udi = sdz, m_backendObject = None\<rparr> \<and>
   m_devicesMap (snd (findRegisteredDevice (udisks_ops sample_env) (DeviceManagerPrivate [Some sample_manager]) sdz)) sdz
     = Some 1"
proof -
  have r1: "registry_run True (udisks_ops sample_env) [Lookup sr0] (DeviceManagerPrivate [Some sample_manager])
     = Inr (sample_registry (Some (Device sr0)))"
    by (simp add: sample_lookup_sr0)
  have r2: "registry_run True (udisks_ops sample_env) [] (DeviceManagerPrivate [Some sample_manager])
     = Inr (DeviceManagerPrivate [Some sample_manager])"
    by simp
  have m1: "m_devicesMap (sample_registry (Some (Device sr0))) sr0 = Some 1"
    by (simp add: sample_registry_def)
  have m2: "m_devicesMap (DeviceManagerPrivate [Some sample_manager]) sdz = None"
    by (simp add: DeviceManagerPrivate_def)
  note t1 = findRegisteredDevice_identity [OF r1 sample_names(1), THEN conjunct1]
  note t2 = findRegisteredDevice_identity [OF r2 sample_names(2), THEN conjunct1]
  show ?thesis
    using r1 r2 m1 m2 sample_names t1 t2
    by (simp add: sample_lookup_sdz)
qed

text \<open>
  The claim as it was stated fails for the empty identifier, which \<open>Device()\<close> passes:
  no handle is registered for it, and the lookup returns the null device, asks no backend
  and enters nothing in the identity map.
\<close>

theorem findRegisteredDevice_identity_counterexample:
  "m_devicesMap (DeviceManagerPrivate [Some sample_manager]) [] = None \<and>
   findRegisteredDevice (udisks_ops sample_env) (DeviceManagerPrivate [Some sample_manager]) []
     = (Some (m_nullDevice (DeviceManagerPrivate [Some sample_manager])),
        DeviceManagerPrivate [Some sample_manager])"
  by (simp add: findRegisteredDevice_def DeviceManagerPrivate_def)

section \<open>A removal that finds an unresolved handle\<close>

lemma names2: "sda \<noteq> sr0" "sr0 \<noteq> sda" "sda \<noteq> []" "sda < sr0" "\<not> sr0 < sda"
  by (simp_all add: sda_def sr0_def)

lemma step1_manager:
  "Manager_createDevice sample_env empty_manager sr0 = (None, one_disk)"
  by (simp add: Manager_createDevice_def deviceCache_def Manager_allDevices_def sample_defs
      one_disk_def sda_def)

lemma step2_manager:
  "Manager_allDevices later_env one_disk = ([sda, sr0], two_disks)"
  by (simp add: Manager_allDevices_def later_env_def one_disk_def two_disks_def sample_defs sda_def)

lemma step2_createDevice:
  "Manager_createDevice later_env two_disks sda = (Some (Device sda), two_disks)"
  by (simp add: Manager_createDevice_def deviceCache_def later_env_def two_disks_def sample_defs sda_def)

lemma step3_manager:
  "slotInterfacesAdded later_env two_disks sr0 [(Block, [])] = two_disks"
  by (simp add: slotInterfacesAdded_def later_env_def two_disks_def sample_defs sda_def)

lemma step4_manager:
  "slotInterfacesRemoved later_env two_disks sr0 [Block]
     = two_disks\<lparr>m_cache := [(sda, [(Block, [])])], emitted := [DeviceRemoved sr0]\<rparr>"
  by (simp add: slotInterfacesRemoved_def later_env_def two_disks_def sample_defs sda_def)

lemma env_prefix: "UD2_UDI_DISKS_PREFIX later_env = UD2_UDI_DISKS_PREFIX sample_env"
  "startsWith sda (UD2_UDI_DISKS_PREFIX sample_env)"
  by (simp_all add: later_env_def sample_defs sda_def)

lemma trace_step1:
  "system_step True sample_env (NewDevice sr0) (DeviceManagerPrivate [Some empty_manager])
     = Inr unresolved_registry"
  by (simp add: findRegisteredDevice_def createBackendObject_def udisks_ops_def step1_manager
      sample_prefix sample_names DeviceManagerPrivate_def unresolved_registry_def)

lemma trace_step2:
  "system_step True later_env AllDevices unresolved_registry = Inr resynced_registry"
  by (simp add: Device_allDevices_def unresolved_registry_def udisks_ops_def step2_manager
      findRegisteredDevice_def createBackendObject_def step2_createDevice env_prefix
      names2 sample_names QPointer_data_def resynced_registry_def)

lemma trace_step3:
  "system_step True later_env (InterfacesAdded sr0 [(Block, [])]) resynced_registry
     = Inr resynced_registry"
  by (simp add: manager_slot_def resynced_registry_def step3_manager)

lemma trace_handle:
  "live_handle resynced_registry sr0 = Some (Suc 0)" "backendObject resynced_registry (Suc 0) = None"
  "notified resynced_registry = []"
  "m_backends resynced_registry = [Some two_disks]" "qcontains sr0 (m_cache two_disks)"
  by (simp_all add: live_handle_def backendObject_def resynced_registry_def QPointer_data_def
      names2 two_disks_def qcontains_def)

lemma trace_step4:
  "system_step dbg later_env (InterfacesRemoved sr0 [Block]) resynced_registry
     = k_deviceRemoved dbg
         (resynced_registry\<lparr>m_backends :=
            [Some (two_disks\<lparr>m_cache := [(sda, [(Block, [])])], emitted := [DeviceRemoved sr0]\<rparr>)]\<rparr>) sr0"
  by (simp add: manager_slot_def trace_handle step4_manager)
     (simp add: two_disks_def split: sum.splits)

lemma trace_step4_dbg:
  "system_step True later_env (InterfacesRemoved sr0 [Block]) resynced_registry = Inl AssertionFailed"
  unfolding trace_step4
  by (simp add: k_deviceRemoved_def resynced_registry_def QPointer_data_def backendObject_def names2)

text \<open>
  Claim C10 does not hold of the code. A consumer looks \<open>sr0\<close> up before the service
  knows it: the handle has a null backend object. The device appears; before the signal
  \<open>InterfacesAdded\<close> is processed, \<open>Device::allDevices()\<close> makes the manager read
  all objects of the service again, so the manager tracks \<open>sr0\<close> without having
  emitted \<open>deviceAdded\<close>. The signal then finds the device tracked and, as it brings no
  Filesystem interface, emits nothing either. When the device goes away the manager emits
  \<open>deviceRemoved\<close>, and the registry's slot finds the live handle with a null backend
  object: its first assertion fails.
\<close>

theorem removal_of_unresolved_handle:
  "system_run True
     [(sample_env, NewDevice sr0), (later_env, AllDevices), (later_env, InterfacesAdded sr0 [(Block, [])])]
     (DeviceManagerPrivate [Some empty_manager]) = Inr resynced_registry \<and>
   live_handle resynced_registry sr0 = Some 1 \<and>
   backendObject resynced_registry 1 = None \<and>
   notified resynced_registry = [] \<and>
   system_run True
     [(sample_env, NewDevice sr0), (later_env, AllDevices), (later_env, InterfacesAdded sr0 [(Block, [])]),
      (later_env, InterfacesRemoved sr0 [Block])]
     (DeviceManagerPrivate [Some empty_manager]) = Inl AssertionFailed"
  by (simp del: system_step.simps
      add: trace_step1 trace_step2 trace_step3 trace_step4_dbg trace_handle)

end
